theory Spec2Isabelle
  imports Main "HOL-Library.Sublist" "HOL-Library.AList"
begin

section \<open>Python values, objects and exceptions\<close>

text \<open>
  The Jira client layer is Python. Its JSON payloads are dictionaries that are shared by
  reference and updated in place, so dictionaries live in an explicit store: a heap is
  the list of all dictionary objects allocated so far, and an address is an index into
  it. Every other JSON value (null, booleans, integers, strings, lists) is an immutable
  value; none of the modelled code updates a list in place. JSON numbers are integers
  here; strings are byte strings (UTF-8).

  A dictionary is an association list in insertion order. \<open>k in d\<close> is
  \<open>map_of d k \<noteq> None\<close>, \<open>d[k]\<close> is \<open>map_of d k\<close> and
  \<open>d[k] = v\<close> is \<open>AList.update k v d\<close>, which overwrites in place
  or appends, as a Python dict does.
\<close>

type_synonym addr = nat

datatype pyval =
    PNone
  | PBool bool
  | PInt int
  | PStr string
  | PList "pyval list"
  | PRef addr

type_synonym pydict = "(string \<times> pyval) list"

type_synonym heap = "pydict list"

text \<open>
  Exceptions are values. Messages built by f-strings are kept up to their static
  prefix; \<open>raise X(msg) from e\<close> records the cause \<open>e\<close>. Every constructor is a
  subclass of Python's \<open>Exception\<close>, so \<open>except Exception\<close> catches each of them.
  \<open>HTTPError\<close> is the one of \<open>requests.exceptions\<close>, a subclass of
  \<open>RequestException\<close>; its argument is the status code of \<open>e.response\<close>, if
  there is a response.
\<close>

datatype py_error =
    ValueError string
  | TypeError string
  | AttributeError
  | KeyError string
  | HTTPError "nat option"
  | RequestException
  | MCPAtlassianAuthenticationError string "py_error option"
  | PyException string "py_error option"

type_synonym 'a result = "py_error + 'a"


definition is_dict :: "heap \<Rightarrow> pyval \<Rightarrow> bool" where
  "is_dict h v = (case v of PRef a \<Rightarrow> a < length h | _ \<Rightarrow> False)"

text \<open>Python truthiness: \<open>None\<close>, \<open>False\<close>, \<open>0\<close> and every empty container are falsy.\<close>

definition py_truthy :: "heap \<Rightarrow> pyval \<Rightarrow> bool" where
  "py_truthy h v =
     (case v of
        PNone \<Rightarrow> False
      | PBool b \<Rightarrow> b
      | PInt i \<Rightarrow> i \<noteq> 0
      | PStr s \<Rightarrow> s \<noteq> []
      | PList xs \<Rightarrow> xs \<noteq> []
      | PRef a \<Rightarrow> (if a < length h then h ! a \<noteq> [] else True))"

definition str_truthy :: "string option \<Rightarrow> bool" where
  "str_truthy v = (case v of None \<Rightarrow> False | Some s \<Rightarrow> s \<noteq> [])"

definition heap_alloc :: "heap \<Rightarrow> pydict \<Rightarrow> addr \<times> heap" where
  "heap_alloc h d = (length h, h @ [d])"

definition dict_setitem :: "heap \<Rightarrow> addr \<Rightarrow> string \<Rightarrow> pyval \<Rightarrow> heap" where
  "dict_setitem h a k v = h[a := AList.update k v (h ! a)]"

definition dict_contains :: "heap \<Rightarrow> addr \<Rightarrow> string \<Rightarrow> bool" where
  "dict_contains h a k = (map_of (h ! a) k \<noteq> None)"

definition dict_getitem :: "heap \<Rightarrow> addr \<Rightarrow> string \<Rightarrow> pyval" where
  "dict_getitem h a k = (case map_of (h ! a) k of Some v \<Rightarrow> v | None \<Rightarrow> PNone)"

text \<open>
  The three dictionary operations are only ever applied to an address that \<open>is_dict\<close>
  has checked or that \<open>heap_alloc\<close> has just returned, and \<open>dict_getitem\<close> only
  behind a \<open>dict_contains\<close> test, as in the source.
\<close>

section \<open>Strings\<close>

text \<open>
  \<open>s.replace(old, new)\<close> scans from the left and replaces the occurrences it finds,
  resuming after each replaced one, so occurrences never overlap. For an empty \<open>old\<close>
  Python inserts \<open>new\<close> around every character. \<open>old in s\<close> is \<open>sublist old s\<close>.
\<close>

fun str_replace_ne :: "string \<Rightarrow> string \<Rightarrow> string \<Rightarrow> string" where
  "str_replace_ne old new [] = []"
| "str_replace_ne old new (c # cs) =
     (if prefix old (c # cs)
      then new @ str_replace_ne old new (drop (length old - 1) cs)
      else c # str_replace_ne old new cs)"

definition str_replace :: "string \<Rightarrow> string \<Rightarrow> string \<Rightarrow> string" where
  "str_replace s old new =
     (if old = [] then new @ concat (map (\<lambda>c. c # new) s)
      else str_replace_ne old new s)"

text \<open>
  Strings are sequences of bytes, the UTF-8 encoding of the text. \<open>lower()\<close> is
  Unicode-aware. Every use of it in the modelled code compares the result with ASCII
  literals and keeps it only when it equals one of them. The lowered text is ASCII only
  when the text consists of ASCII characters and of U+212A KELVIN SIGN (bytes
  \<open>E2 84 AA\<close>), the one character outside ASCII whose lower case is an ASCII string
  (\<open>k\<close>). \<open>str_lower\<close> lowers these and keeps every other byte, so it agrees with
  \<open>lower()\<close> on every such text, and on any other text both results differ from every
  ASCII literal. \<open>upper()\<close> is applied to the service name only, an ASCII literal of
  the callers (\<open>Jira\<close>); \<open>str_upper\<close> is \<open>upper()\<close> on ASCII strings.
\<close>

definition ascii_lower :: "char \<Rightarrow> char" where
  "ascii_lower c =
     (if 65 \<le> (of_char c :: nat) \<and> (of_char c :: nat) \<le> 90
      then char_of ((of_char c :: nat) + 32) else c)"

definition ascii_upper :: "char \<Rightarrow> char" where
  "ascii_upper c =
     (if 97 \<le> (of_char c :: nat) \<and> (of_char c :: nat) \<le> 122
      then char_of ((of_char c :: nat) - 32) else c)"

fun str_lower :: "string \<Rightarrow> string" where
  "str_lower (c1 # c2 # c3 # cs) =
     (if c1 = CHR 0xE2 \<and> c2 = CHR 0x84 \<and> c3 = CHR 0xAA
      then CHR ''k'' # str_lower cs
      else ascii_lower c1 # str_lower (c2 # c3 # cs))"
| "str_lower (c # cs) = ascii_lower c # str_lower cs"
| "str_lower [] = []"

definition str_upper :: "string \<Rightarrow> string" where
  "str_upper s = map ascii_upper s"

section \<open>http_client.py: API version rewriting\<close>

definition normalize_api_path :: "string \<Rightarrow> bool \<Rightarrow> string" where
  "normalize_api_path url force_v2 =
     (if force_v2 \<and> sublist ''/rest/api/3/'' url
      then str_replace url ''/rest/api/3/'' ''/rest/api/2/''
      else url)"

text \<open>
  \<open>APIv2Adapter.send\<close> rewrites \<open>request.url\<close> (which may be \<open>None\<close>) before it
  hands the request to the transport; the result is the URL the transport receives.
\<close>

definition adapter_send_url :: "bool \<Rightarrow> string option \<Rightarrow> string option" where
  "adapter_send_url force_v2 request_url =
     (if force_v2 \<and> str_truthy request_url
      then (case request_url of
              Some url \<Rightarrow>
                if sublist ''/rest/api/3/'' url
                then Some (str_replace url ''/rest/api/3/'' ''/rest/api/2/'')
                else Some url
            | None \<Rightarrow> None)
      else request_url)"

section \<open>mappers.py: field mappers between Cloud and Server 6.x\<close>

text \<open>
  A mapper takes the heap and the value passed as \<open>data\<close>, and returns what the call
  returns or raises together with the heap it leaves. \<open>data.copy()\<close> allocates a new
  dictionary with the same items (a shallow copy). On a truthy value that is not a
  dictionary the source fails: a string, a number or a boolean has no \<open>copy\<close>
  (\<open>AttributeError\<close>); a list has one, but is then indexed by a string
  (\<open>TypeError\<close>) unless every membership test sends the code past the indexing.
\<close>

definition normalize_user_response :: "heap \<Rightarrow> pyval \<Rightarrow> pyval result \<times> heap" where
  "normalize_user_response h data =
     (if \<not> py_truthy h data then (Inr data, h)
      else case data of
        PRef a \<Rightarrow>
          if a < length h then
            let (normalized, h1) = heap_alloc h (h ! a);
                h2 =
                  (if \<not> dict_contains h1 normalized ''accountId''
                      \<or> dict_getitem h1 normalized ''accountId'' = PNone
                   then
                     if dict_contains h1 normalized ''name''
                        \<and> py_truthy h1 (dict_getitem h1 normalized ''name'')
                     then dict_setitem h1 normalized ''accountId''
                            (dict_getitem h1 normalized ''name'')
                     else if dict_contains h1 normalized ''key''
                        \<and> py_truthy h1 (dict_getitem h1 normalized ''key'')
                     then dict_setitem h1 normalized ''accountId''
                            (dict_getitem h1 normalized ''key'')
                     else h1
                   else h1);
                h3 =
                  (if \<not> dict_contains h2 normalized ''emailAddress''
                   then dict_setitem h2 normalized ''emailAddress'' PNone
                   else h2)
            in (Inr (PRef normalized), h3)
          else (Inl AttributeError, h)
      | PList xs \<Rightarrow>
          if PStr ''accountId'' \<in> set xs \<or> PStr ''name'' \<in> set xs
             \<or> PStr ''key'' \<in> set xs \<or> PStr ''emailAddress'' \<notin> set xs
          then (Inl (TypeError ''list indices must be integers''), h)
          else (Inr (PList xs), h)
      | _ \<Rightarrow> (Inl AttributeError, h))"

text \<open>
  The block the issue and comment mappers repeat for each user-valued key:
  \<^verbatim>\<open>if k in d and isinstance(d[k], dict): d[k] = normalize_user_response(d[k])\<close>,
  for the dictionary at address \<open>d\<close>.
\<close>

definition normalize_user_key :: "heap \<Rightarrow> addr \<Rightarrow> string \<Rightarrow> unit result \<times> heap" where
  "normalize_user_key h d k =
     (if dict_contains h d k \<and> is_dict h (dict_getitem h d k)
      then (case normalize_user_response h (dict_getitem h d k) of
              (Inl e, h') \<Rightarrow> (Inl e, h')
            | (Inr u, h') \<Rightarrow> (Inr (), dict_setitem h' d k u))
      else (Inr (), h))"

definition normalize_issue_response :: "heap \<Rightarrow> pyval \<Rightarrow> pyval result \<times> heap" where
  "normalize_issue_response h data =
     (if \<not> py_truthy h data then (Inr data, h)
      else case data of
        PRef a \<Rightarrow>
          if a < length h then
            let (normalized, h1) = heap_alloc h (h ! a) in
            if dict_contains h1 normalized ''fields''
               \<and> is_dict h1 (dict_getitem h1 normalized ''fields'')
            then
              (case dict_getitem h1 normalized ''fields'' of
                 PRef f \<Rightarrow>
                   let (fields, h2) = heap_alloc h1 (h1 ! f) in
                   (case normalize_user_key h2 fields ''assignee'' of
                      (Inl e, h3) \<Rightarrow> (Inl e, h3)
                    | (Inr _, h3) \<Rightarrow>
                   (case normalize_user_key h3 fields ''reporter'' of
                      (Inl e, h4) \<Rightarrow> (Inl e, h4)
                    | (Inr _, h4) \<Rightarrow>
                   (case normalize_user_key h4 fields ''creator'' of
                      (Inl e, h5) \<Rightarrow> (Inl e, h5)
                    | (Inr _, h5) \<Rightarrow>
                        (Inr (PRef normalized),
                         dict_setitem h5 normalized ''fields'' (PRef fields)))))
               | _ \<Rightarrow> (Inr (PRef normalized), h1))
            else (Inr (PRef normalized), h1)
          else (Inl AttributeError, h)
      | PList xs \<Rightarrow>
          if PStr ''fields'' \<in> set xs
          then (Inl (TypeError ''list indices must be integers''), h)
          else (Inr (PList xs), h)
      | _ \<Rightarrow> (Inl AttributeError, h))"

definition normalize_comment_response :: "heap \<Rightarrow> pyval \<Rightarrow> pyval result \<times> heap" where
  "normalize_comment_response h data =
     (if \<not> py_truthy h data then (Inr data, h)
      else case data of
        PRef a \<Rightarrow>
          if a < length h then
            let (normalized, h1) = heap_alloc h (h ! a) in
            (case normalize_user_key h1 normalized ''author'' of
               (Inl e, h2) \<Rightarrow> (Inl e, h2)
             | (Inr _, h2) \<Rightarrow>
            (case normalize_user_key h2 normalized ''updateAuthor'' of
               (Inl e, h3) \<Rightarrow> (Inl e, h3)
             | (Inr _, h3) \<Rightarrow> (Inr (PRef normalized), h3)))
          else (Inl AttributeError, h)
      | PList xs \<Rightarrow>
          if PStr ''author'' \<in> set xs \<or> PStr ''updateAuthor'' \<in> set xs
          then (Inl (TypeError ''list indices must be integers''), h)
          else (Inr (PList xs), h)
      | _ \<Rightarrow> (Inl AttributeError, h))"

section \<open>config.py: the configuration and its resolution from the environment\<close>

text \<open>
  \<open>OAuthConfig\<close> and \<open>BYOAccessTokenOAuthConfig\<close> are declared outside the
  modelled files; \<open>cloud_id\<close> is the one attribute the modelled code reads. An
  instance is always truthy. The fields of \<open>JiraConfig\<close> carry the prefix
  \<open>cfg_\<close>; \<open>sla_config\<close>, which \<open>from_env\<close> leaves at its default, is omitted.
\<close>

record oauth_config =
  cloud_id :: "string option"

record jira_config =
  cfg_url :: "string option"
  cfg_auth_type :: string
  cfg_username :: "string option"
  cfg_api_token :: "string option"
  cfg_personal_token :: "string option"
  cfg_oauth_config :: "oauth_config option"
  cfg_ssl_verify :: bool
  cfg_projects_filter :: "string option"
  cfg_http_proxy :: "string option"
  cfg_https_proxy :: "string option"
  cfg_no_proxy :: "string option"
  cfg_socks_proxy :: "string option"
  cfg_custom_headers :: "(string \<times> string) list option"
  cfg_disable_jira_markup_translation :: bool
  cfg_client_cert :: "string option"
  cfg_client_key :: "string option"
  cfg_client_key_password :: "string option"
  cfg_jira_mode :: string
  cfg_jira_auth :: string
  cfg_jira_password :: "string option"
  cfg_jira_ca_file :: "string option"

text \<open>
  The environment is the function \<open>os.getenv\<close>. The helpers that \<open>from_env\<close> imports
  from modules outside the modelled files are parameters: the result of
  \<open>get_oauth_config_from_env()\<close>, the predicate \<open>is_atlassian_cloud_url\<close>, and
  the functions \<open>is_env_ssl_verify\<close> and \<open>get_custom_headers\<close> of a variable name.
\<close>

type_synonym environ = "string \<Rightarrow> string option"

record env_helpers =
  get_oauth_config_from_env :: "oauth_config option"
  is_atlassian_cloud_url :: "string option \<Rightarrow> bool"
  is_env_ssl_verify :: "string \<Rightarrow> bool"
  get_custom_headers :: "string \<Rightarrow> (string \<times> string) list option"

definition getenv_default :: "environ \<Rightarrow> string \<Rightarrow> string \<Rightarrow> string" where
  "getenv_default env k d = (case env k of None \<Rightarrow> d | Some v \<Rightarrow> v)"

definition getenv_fallback :: "environ \<Rightarrow> string \<Rightarrow> string \<Rightarrow> string option" where
  "getenv_fallback env k k' = (case env k of None \<Rightarrow> env k' | Some v \<Rightarrow> Some v)"

definition is_cloud :: "(string option \<Rightarrow> bool) \<Rightarrow> jira_config \<Rightarrow> bool" where
  "is_cloud cloud_url c =
     (if cfg_jira_mode c = ''server_6x'' then False
      else if cfg_auth_type c = ''oauth''
              \<and> (case cfg_oauth_config c of None \<Rightarrow> False | Some oc \<Rightarrow> str_truthy (cloud_id oc))
      then True
      else if str_truthy (cfg_url c) then cloud_url (cfg_url c) else False)"

definition from_env :: "environ \<Rightarrow> env_helpers \<Rightarrow> jira_config result" where
  "from_env env ext =
     (let url = env ''JIRA_URL'' in
      if \<not> str_truthy url \<and> \<not> str_truthy (env ''ATLASSIAN_OAUTH_ENABLE'')
      then Inl (ValueError ''Missing required JIRA_URL environment variable'')
      else
        let username = env ''JIRA_USERNAME'';
            api_token = env ''JIRA_API_TOKEN'';
            personal_token = env ''JIRA_PERSONAL_TOKEN'';
            jira_password = env ''JIRA_PASSWORD'';
            oauth = get_oauth_config_from_env ext;
            jira_mode_raw = str_lower (getenv_default env ''JIRA_MODE'' ''cloud'');
            is_server_6x = (jira_mode_raw = ''server_6x'');
            cloud = is_atlassian_cloud_url ext url;
            resolved =
              (if cloud \<and> \<not> is_server_6x then
                 if oauth \<noteq> None then Inr ''oauth''
                 else if str_truthy username \<and> str_truthy api_token then Inr ''basic''
                 else Inl (ValueError
                   ''Cloud authentication requires JIRA_USERNAME and JIRA_API_TOKEN, or OAuth configuration (set ATLASSIAN_OAUTH_ENABLE=true for user-provided tokens)'')
               else if is_server_6x then
                 if str_truthy username \<and> (str_truthy jira_password \<or> str_truthy api_token)
                 then Inr ''basic''
                 else Inl (ValueError
                   ''Server 6.x authentication requires JIRA_USERNAME and JIRA_PASSWORD (or JIRA_API_TOKEN)'')
               else
                 if str_truthy personal_token then Inr ''pat''
                 else if oauth \<noteq> None then Inr ''oauth''
                 else if str_truthy username \<and> str_truthy api_token then Inr ''basic''
                 else Inl (ValueError
                   ''Server/Data Center authentication requires JIRA_PERSONAL_TOKEN or JIRA_USERNAME and JIRA_API_TOKEN''))
        in case resolved of
          Inl e \<Rightarrow> Inl e
        | Inr auth_type \<Rightarrow>
            let jira_auth_raw = str_lower (getenv_default env ''JIRA_AUTH'' ''basic'') in
            Inr \<lparr>cfg_url = url,
                 cfg_auth_type = auth_type,
                 cfg_username = username,
                 cfg_api_token = api_token,
                 cfg_personal_token = personal_token,
                 cfg_oauth_config = oauth,
                 cfg_ssl_verify = is_env_ssl_verify ext ''JIRA_SSL_VERIFY'',
                 cfg_projects_filter = env ''JIRA_PROJECTS_FILTER'',
                 cfg_http_proxy = getenv_fallback env ''JIRA_HTTP_PROXY'' ''HTTP_PROXY'',
                 cfg_https_proxy = getenv_fallback env ''JIRA_HTTPS_PROXY'' ''HTTPS_PROXY'',
                 cfg_no_proxy = getenv_fallback env ''JIRA_NO_PROXY'' ''NO_PROXY'',
                 cfg_socks_proxy = getenv_fallback env ''JIRA_SOCKS_PROXY'' ''SOCKS_PROXY'',
                 cfg_custom_headers = get_custom_headers ext ''JIRA_CUSTOM_HEADERS'',
                 cfg_disable_jira_markup_translation =
                   (str_lower (getenv_default env ''DISABLE_JIRA_MARKUP_TRANSLATION'' ''false'')
                    = ''true''),
                 cfg_client_cert = env ''JIRA_CLIENT_CERT'',
                 cfg_client_key = env ''JIRA_CLIENT_KEY'',
                 cfg_client_key_password = env ''JIRA_CLIENT_KEY_PASSWORD'',
                 cfg_jira_mode =
                   (if jira_mode_raw \<noteq> ''cloud'' \<and> jira_mode_raw \<noteq> ''server_6x''
                    then ''cloud'' else jira_mode_raw),
                 cfg_jira_auth =
                   (if jira_auth_raw \<noteq> ''basic'' \<and> jira_auth_raw \<noteq> ''cookie''
                    then ''basic'' else jira_auth_raw),
                 cfg_jira_password = jira_password,
                 cfg_jira_ca_file = env ''JIRA_CA_FILE''\<rparr>)"

section \<open>utils/ssl.py: TLS configuration of a session\<close>

text \<open>
  The part of a \<open>requests.Session\<close> that the modelled code configures:
  the client certificate, the \<open>verify\<close> setting, the mounted adapters by URL prefix
  and the cookie jar.
\<close>

datatype adapter = SSLIgnoreAdapter | APIv2Adapter bool

datatype verify = VerifyDefault | VerifyBundle string

record session =
  sess_cert :: "(string \<times> string) option"
  sess_verify :: verify
  sess_adapters :: "(string \<times> adapter) list"
  sess_cookies :: "(string \<times> string) list"

definition session_mount :: "session \<Rightarrow> string \<Rightarrow> adapter \<Rightarrow> session" where
  "session_mount s pfx ad = s\<lparr>sess_adapters := AList.update pfx ad (sess_adapters s)\<rparr>"

text \<open>
  \<open>configure_ssl_verification\<close> reads the environment, asks the file system whether
  the CA file exists (\<open>path_exists\<close>) and takes the host of the URL
  (\<open>netloc\<close>, for \<open>urlparse(url).netloc\<close>); it sends nothing. It returns what the
  call returns or raises, and the session as it leaves it. The message of the
  \<open>ValueError\<close> is kept up to its first sentence.
\<close>

definition configure_ssl_verification ::
  "environ \<Rightarrow> (string \<Rightarrow> bool) \<Rightarrow> (string \<Rightarrow> string) \<Rightarrow> string \<Rightarrow> string \<Rightarrow> session \<Rightarrow> bool \<Rightarrow>
   string option \<Rightarrow> string option \<Rightarrow> string option \<Rightarrow> string option \<Rightarrow> unit result \<times> session"
where
  "configure_ssl_verification env path_exists netloc service_name url s ssl_verify
     client_cert client_key client_key_password ca_file =
     (case
        (case (client_cert, client_key) of
           (Some cert, Some key) \<Rightarrow>
             if str_truthy client_key_password
             then Inl (ValueError (service_name @
               '' client certificate authentication with encrypted private keys is not supported.''))
             else Inr (s\<lparr>sess_cert := Some (cert, key)\<rparr>)
         | _ \<Rightarrow> Inr s)
      of
        Inl e \<Rightarrow> (Inl e, s)
      | Inr s1 \<Rightarrow>
          let tls_insecure_env =
                str_lower (getenv_default env (str_upper service_name @ ''_TLS_INSECURE'') ''false'');
              ssl_verify' =
                (if tls_insecure_env = ''true'' \<or> tls_insecure_env = ''1''
                    \<or> tls_insecure_env = ''yes''
                 then False else ssl_verify)
          in
          if \<not> ssl_verify' then
            let domain = netloc url in
            (Inr (), session_mount (session_mount s1 (''https://'' @ domain) SSLIgnoreAdapter)
                       (''http://'' @ domain) SSLIgnoreAdapter)
          else if str_truthy ca_file then
            (case ca_file of
               Some ca \<Rightarrow>
                 if \<not> path_exists ca then (Inr (), s1)
                 else (Inr (), s1\<lparr>sess_verify := VerifyBundle ca\<rparr>)
             | None \<Rightarrow> (Inr (), s1))
          else (Inr (), s1))"

section \<open>The network as the client sees it\<close>

text \<open>
  The servers are scripts: \<open>w_http\<close> holds the outcomes of the successive calls of
  \<open>requests.post\<close> and \<open>requests.delete\<close>, \<open>w_api\<close> those of the successive calls
  on \<open>self.jira\<close> (the Jira library, which returns the parsed JSON body or raises).
  A call takes the next outcome; when the script is used up the network is down and the
  call raises a \<open>RequestException\<close>. A JSON object that a call returns is a new
  dictionary, allocated by the call. Every call is appended to \<open>w_trace\<close>, together
  with a mark for each invocation of \<open>_establish_cookie_session\<close>. Keyword arguments
  that do not vary (\<open>verify\<close>, \<open>timeout=30\<close>) are not recorded.
\<close>

datatype 'a outcome = Raises py_error | Returns 'a

datatype http_response =
  HttpResponse (status_code: nat) (resp_cookies: "(string \<times> string) list") (resp_text: string)

datatype api_reply = ReplyObject pydict | ReplyOther pyval

datatype event =
    CallEstablish
  | HttpPost string "(string \<times> string) list"
  | HttpDelete string "(string \<times> string) list"
  | JiraMyself
  | JiraGet string pydict bool
  | JiraPost string pydict bool
  | JiraIssueAddComment string string pyval
  | JiraIssueEditComment string string string pyval

record world =
  w_heap :: heap
  w_http :: "http_response outcome list"
  w_api :: "api_reply outcome list"
  w_trace :: "event list"

definition http_call :: "world \<Rightarrow> event \<Rightarrow> http_response result \<times> world" where
  "http_call w ev =
     (let w' = w\<lparr>w_trace := w_trace w @ [ev]\<rparr> in
      case w_http w of
        [] \<Rightarrow> (Inl RequestException, w')
      | Raises e # rest \<Rightarrow> (Inl e, w'\<lparr>w_http := rest\<rparr>)
      | Returns r # rest \<Rightarrow> (Inr r, w'\<lparr>w_http := rest\<rparr>))"

definition api_call :: "world \<Rightarrow> event \<Rightarrow> pyval result \<times> world" where
  "api_call w ev =
     (let w' = w\<lparr>w_trace := w_trace w @ [ev]\<rparr> in
      case w_api w of
        [] \<Rightarrow> (Inl RequestException, w')
      | Raises e # rest \<Rightarrow> (Inl e, w'\<lparr>w_api := rest\<rparr>)
      | Returns (ReplyObject d) # rest \<Rightarrow>
          (Inr (PRef (length (w_heap w))), w'\<lparr>w_api := rest, w_heap := w_heap w @ [d]\<rparr>)
      | Returns (ReplyOther v) # rest \<Rightarrow> (Inr v, w'\<lparr>w_api := rest\<rparr>))"

section \<open>client.py: the cookie session\<close>

text \<open>
  The client: its configuration, the cached \<open>_cookie_session\<close> and the session of the
  Jira library (\<open>self.jira._session\<close>). A method returns what the call returns or
  raises, the client and the world as it leaves them.
\<close>

record jira_client =
  config :: jira_config
  cookie_session :: "string option"
  jira_session :: session

definition url_str :: "string option \<Rightarrow> string" where
  "url_str u = (case u of None \<Rightarrow> ''None'' | Some s \<Rightarrow> s)"



definition logout :: "jira_client \<Rightarrow> world \<Rightarrow> unit result \<times> jira_client \<times> world" where
  "logout c w =
     (if str_truthy (cookie_session c) \<and> cfg_jira_auth (config c) = ''cookie''
      then
        let session_url = url_str (cfg_url (config c)) @ ''/rest/auth/1/session'' in
        case http_call w (HttpDelete session_url [(''JSESSIONID'', the (cookie_session c))]) of
          (Inl e, w1) \<Rightarrow> (Inr (), c, w1)
        | (Inr response, w1) \<Rightarrow> (Inr (), c\<lparr>cookie_session := None\<rparr>, w1)
      else (Inr (), c, w))"



section \<open>client.py: paged requests\<close>

definition dict_items :: "heap \<Rightarrow> pyval \<Rightarrow> pydict" where
  "dict_items h v = (case v of PRef a \<Rightarrow> if a < length h then h ! a else [] | _ \<Rightarrow> [])"

text \<open>
  The \<open>while True\<close> loop of \<open>get_paged\<close>. The event of a request records the items
  that the parameter dictionary has when the request is made. The loop ends when the
  script does, at the latest.
\<close>

function get_paged_loop ::
  "string \<Rightarrow> string \<Rightarrow> bool \<Rightarrow> pyval \<Rightarrow> pyval list \<Rightarrow> world \<Rightarrow> pyval list result \<times> world" where
  "get_paged_loop method path absolute current_data all_results w =
     (case api_call w
             (if method = ''get''
              then JiraGet path (dict_items (w_heap w) current_data) absolute
              else JiraPost path (dict_items (w_heap w) current_data) absolute) of
        (Inl e, w1) \<Rightarrow> (Inl e, w1)
      | (Inr api_result, w1) \<Rightarrow>
          (case api_result of
             PRef ra \<Rightarrow>
               if ra < length (w_heap w1) then
                 if \<not> dict_contains (w_heap w1) ra ''nextPageToken''
                 then (Inr (all_results @ [api_result]), w1)
                 else
                   (case current_data of
                      PRef ca \<Rightarrow>
                        if ca < length (w_heap w1) then
                          get_paged_loop method path absolute current_data
                            (all_results @ [api_result])
                            (w1\<lparr>w_heap := dict_setitem (w_heap w1) ca ''nextPageToken''
                                   (dict_getitem (w_heap w1) ra ''nextPageToken'')\<rparr>)
                        else (Inl (TypeError ''object does not support item assignment''), w1)
                    | _ \<Rightarrow> (Inl (TypeError ''object does not support item assignment''), w1))
               else (Inl (ValueError ''API result is not a dictionary''), w1)
           | _ \<Rightarrow> (Inl (ValueError ''API result is not a dictionary''), w1)))"
  by pat_completeness auto
termination
proof (relation "measure (\<lambda>(method, path, absolute, current_data, all_results, w).
                    length (w_api w))")
  show "wf (measure (\<lambda>(method, path, absolute, current_data, all_results, w).
                    length (w_api w)))" by simp
next
  fix m p ab cd acc w x e api_result w1 ra ca
  assume "(x, w1) = api_call w
             (if m = ''get''
              then JiraGet p (dict_items (w_heap w) cd) ab
              else JiraPost p (dict_items (w_heap w) cd) ab)"
    and "x = Inr api_result"
  then have "length (w_api w1) < length (w_api w)"
    by (auto simp: api_call_def Let_def split: list.splits outcome.splits api_reply.splits)
  then show "((m, p, ab, cd, acc @ [api_result],
           w1\<lparr>w_heap := dict_setitem (w_heap w1) ca ''nextPageToken''
                  (dict_getitem (w_heap w1) ra ''nextPageToken'')\<rparr>),
          m, p, ab, cd, acc, w)
         \<in> measure (\<lambda>(method, path, absolute, current_data, all_results, w).
                    length (w_api w))"
    by simp
qed

declare get_paged_loop.simps [simp del]

definition get_paged ::
  "(string option \<Rightarrow> bool) \<Rightarrow> jira_client \<Rightarrow> world \<Rightarrow> string \<Rightarrow> string \<Rightarrow> pyval \<Rightarrow> bool \<Rightarrow>
   pyval list result \<times> world" where
  "get_paged cloud_url c w method path params_or_json absolute =
     (if \<not> is_cloud cloud_url (config c)
      then (Inl (ValueError ''Paged requests are only available for Jira Cloud platform''), w)
      else if py_truthy (w_heap w) params_or_json
      then get_paged_loop method path absolute params_or_json [] w
      else case heap_alloc (w_heap w) [] of (current_data, h1) \<Rightarrow>
             get_paged_loop method path absolute (PRef current_data) [] (w\<lparr>w_heap := h1\<rparr>))"

section \<open>comments.py: Markdown conversion of the comment operations\<close>

text \<open>
  \<open>CommentsMixin._markdown_to_jira\<close>, which overrides the method of the base
  client. The preprocessor's \<open>markdown_to_jira\<close> is a collaborator outside the modelled
  files: a parameter that returns the converted text or raises.
\<close>

definition markdown_to_jira :: "(string \<Rightarrow> string result) \<Rightarrow> string \<Rightarrow> string" where
  "markdown_to_jira convert markdown_text =
     (if markdown_text = [] then []
      else case convert markdown_text of
             Inr converted \<Rightarrow> converted
           | Inl e \<Rightarrow> markdown_text)"

text \<open>
  The collaborators of the comment operations that are outside the modelled files: the
  two methods of the preprocessor and \<open>str(parse_date(...))\<close>. Each returns a string
  or raises.
\<close>

record text_helpers =
  preprocessor_markdown_to_jira :: "string \<Rightarrow> string result"
  preprocessor_clean_jira_text :: "pyval \<Rightarrow> string result"
  parse_date_str :: "pyval \<Rightarrow> string result"

text \<open>\<open>JiraClient._clean_text\<close>.\<close>

definition clean_text :: "text_helpers \<Rightarrow> heap \<Rightarrow> pyval \<Rightarrow> string result" where
  "clean_text ext h text =
     (if \<not> py_truthy h text then Inr [] else preprocessor_clean_jira_text ext text)"

text \<open>
  \<open>d.get(k, default)\<close>; a value that is not a dictionary has no \<open>get\<close>. The
  fallback chain \<open>author.get("displayName") or author.get("name") or
  author.get("accountId") or "Unknown"\<close> of \<open>add_comment\<close> is \<open>author_name\<close>.
\<close>

definition dict_get :: "heap \<Rightarrow> pyval \<Rightarrow> string \<Rightarrow> pyval \<Rightarrow> pyval result" where
  "dict_get h d k dflt =
     (case d of
        PRef a \<Rightarrow>
          if a < length h
          then Inr (case map_of (h ! a) k of Some v \<Rightarrow> v | None \<Rightarrow> dflt)
          else Inl AttributeError
      | _ \<Rightarrow> Inl AttributeError)"

definition author_name :: "heap \<Rightarrow> pyval \<Rightarrow> pyval result" where
  "author_name h author =
     (case dict_get h author ''displayName'' PNone of
        Inl e \<Rightarrow> Inl e
      | Inr v1 \<Rightarrow>
          if py_truthy h v1 then Inr v1
          else case dict_get h author ''name'' PNone of
            Inl e \<Rightarrow> Inl e
          | Inr v2 \<Rightarrow>
              if py_truthy h v2 then Inr v2
              else case dict_get h author ''accountId'' PNone of
                Inl e \<Rightarrow> Inl e
              | Inr v3 \<Rightarrow> if py_truthy h v3 then Inr v3 else Inr (PStr ''Unknown''))"

text \<open>
  \<open>add_comment\<close> and \<open>edit_comment\<close>: the body of the \<open>try\<close>, then the handler
  that wraps every exception. The default \<open>{}\<close> of \<open>result.get("author", {})\<close> is a
  new dictionary, as is the dictionary that is returned.
\<close>

definition add_comment_try ::
  "text_helpers \<Rightarrow> jira_client \<Rightarrow> world \<Rightarrow> string \<Rightarrow> string \<Rightarrow> pyval \<Rightarrow> pyval result \<times> world" where
  "add_comment_try ext c w issue_key comment visibility =
     (let jira_formatted_comment = markdown_to_jira (preprocessor_markdown_to_jira ext) comment in
      case api_call w (JiraIssueAddComment issue_key jira_formatted_comment visibility) of
        (Inl e, w1) \<Rightarrow> (Inl e, w1)
      | (Inr result, w1) \<Rightarrow>
          if \<not> is_dict (w_heap w1) result
          then (Inl (TypeError ''Unexpected return value type from ''), w1)
          else
            case (if cfg_jira_mode (config c) = ''server_6x''
                  then normalize_comment_response (w_heap w1) result
                  else (Inr result, w_heap w1)) of
              (Inl e, h2) \<Rightarrow> (Inl e, w1\<lparr>w_heap := h2\<rparr>)
            | (Inr result2, h2) \<Rightarrow>
                let (dflt, h3) = heap_alloc h2 [];
                    w3 = w1\<lparr>w_heap := h3\<rparr> in
                case dict_get h3 result2 ''author'' (PRef dflt) of
                  Inl e \<Rightarrow> (Inl e, w3)
                | Inr author \<Rightarrow>
                case author_name h3 author of
                  Inl e \<Rightarrow> (Inl e, w3)
                | Inr name \<Rightarrow>
                case dict_get h3 result2 ''id'' PNone of
                  Inl e \<Rightarrow> (Inl e, w3)
                | Inr cid \<Rightarrow>
                case dict_get h3 result2 ''body'' (PStr []) of
                  Inl e \<Rightarrow> (Inl e, w3)
                | Inr body \<Rightarrow>
                case clean_text ext h3 body of
                  Inl e \<Rightarrow> (Inl e, w3)
                | Inr cleaned \<Rightarrow>
                case dict_get h3 result2 ''created'' PNone of
                  Inl e \<Rightarrow> (Inl e, w3)
                | Inr created \<Rightarrow>
                case parse_date_str ext created of
                  Inl e \<Rightarrow> (Inl e, w3)
                | Inr created_str \<Rightarrow>
                    let (r, h4) = heap_alloc h3
                          [(''id'', cid), (''body'', PStr cleaned),
                           (''created'', PStr created_str), (''author'', name)]
                    in (Inr (PRef r), w3\<lparr>w_heap := h4\<rparr>))"

definition add_comment ::
  "text_helpers \<Rightarrow> jira_client \<Rightarrow> world \<Rightarrow> string \<Rightarrow> string \<Rightarrow> pyval \<Rightarrow> pyval result \<times> world" where
  "add_comment ext c w issue_key comment visibility =
     (case add_comment_try ext c w issue_key comment visibility of
        (Inl e, w') \<Rightarrow> (Inl (PyException ''Error adding comment: '' (Some e)), w')
      | (Inr r, w') \<Rightarrow> (Inr r, w'))"

definition edit_comment_try ::
  "text_helpers \<Rightarrow> jira_client \<Rightarrow> world \<Rightarrow> string \<Rightarrow> string \<Rightarrow> string \<Rightarrow> pyval \<Rightarrow>
   pyval result \<times> world" where
  "edit_comment_try ext c w issue_key comment_id comment visibility =
     (let jira_formatted_comment = markdown_to_jira (preprocessor_markdown_to_jira ext) comment in
      case api_call w (JiraIssueEditComment issue_key comment_id jira_formatted_comment visibility) of
        (Inl e, w1) \<Rightarrow> (Inl e, w1)
      | (Inr result, w1) \<Rightarrow>
          if \<not> is_dict (w_heap w1) result
          then (Inl (TypeError ''Unexpected return value type from ''), w1)
          else
            let h1 = w_heap w1 in
            case dict_get h1 result ''id'' PNone of
              Inl e \<Rightarrow> (Inl e, w1)
            | Inr cid \<Rightarrow>
            case dict_get h1 result ''body'' (PStr []) of
              Inl e \<Rightarrow> (Inl e, w1)
            | Inr body \<Rightarrow>
            case clean_text ext h1 body of
              Inl e \<Rightarrow> (Inl e, w1)
            | Inr cleaned \<Rightarrow>
            case dict_get h1 result ''updated'' PNone of
              Inl e \<Rightarrow> (Inl e, w1)
            | Inr updated \<Rightarrow>
            case parse_date_str ext updated of
              Inl e \<Rightarrow> (Inl e, w1)
            | Inr updated_str \<Rightarrow>
                let (dflt, h2) = heap_alloc h1 [];
                    w2 = w1\<lparr>w_heap := h2\<rparr> in
                case dict_get h2 result ''author'' (PRef dflt) of
                  Inl e \<Rightarrow> (Inl e, w2)
                | Inr author \<Rightarrow>
                case dict_get h2 author ''displayName'' (PStr ''Unknown'') of
                  Inl e \<Rightarrow> (Inl e, w2)
                | Inr name \<Rightarrow>
                    let (r, h3) = heap_alloc h2
                          [(''id'', cid), (''body'', PStr cleaned),
                           (''updated'', PStr updated_str), (''author'', name)]
                    in (Inr (PRef r), w2\<lparr>w_heap := h3\<rparr>))"

definition edit_comment ::
  "text_helpers \<Rightarrow> jira_client \<Rightarrow> world \<Rightarrow> string \<Rightarrow> string \<Rightarrow> string \<Rightarrow> pyval \<Rightarrow>
   pyval result \<times> world" where
  "edit_comment ext c w issue_key comment_id comment visibility =
     (case edit_comment_try ext c w issue_key comment_id comment visibility of
        (Inl e, w') \<Rightarrow> (Inl (PyException ''Error editing comment: '' (Some e)), w')
      | (Inr r, w') \<Rightarrow> (Inr r, w'))"

section \<open>Auxiliary predicates of the proofs\<close>

text \<open>
  What a prefix of the output says about the input. \<open>border_free old new q\<close> holds when
  no non-empty suffix of \<open>q\<close> can begin at a replaced occurrence unless it begins \<open>old\<close>
  as well.
\<close>

fun border_free :: "string \<Rightarrow> string \<Rightarrow> string \<Rightarrow> bool" where
  "border_free old new [] = True"
| "border_free old new (x # xs) =
     (\<not> prefix new (x # xs) \<and> (prefix (x # xs) new \<longrightarrow> prefix (x # xs) old)
      \<and> border_free old new xs)"

text \<open>
  \<open>py_get h v k\<close> reads key \<open>k\<close> of the dictionary that \<open>v\<close> refers to, if there
  is such a dictionary and it has the key.
\<close>

definition py_get :: "heap \<Rightarrow> pyval \<Rightarrow> string \<Rightarrow> pyval option" where
  "py_get h v k =
     (case v of PRef a \<Rightarrow> if a < length h then map_of (h ! a) k else None | _ \<Rightarrow> None)"

text \<open>
  The items of the dictionary that \<open>normalize_user_response\<close> returns for a
  non-empty dictionary with items \<open>d\<close> (lemma \<open>normalize_user_response_closed\<close>).
\<close>

definition item :: "pydict \<Rightarrow> string \<Rightarrow> pyval" where
  "item d k = (case map_of d k of Some v \<Rightarrow> v | None \<Rightarrow> PNone)"

definition user_items :: "heap \<Rightarrow> pydict \<Rightarrow> pydict" where
  "user_items h d =
     (let d2 =
        (if map_of d ''accountId'' = None \<or> item d ''accountId'' = PNone
         then
           if map_of d ''name'' \<noteq> None \<and> py_truthy h (item d ''name'')
           then AList.update ''accountId'' (item d ''name'') d
           else if map_of d ''key'' \<noteq> None \<and> py_truthy h (item d ''key'')
           then AList.update ''accountId'' (item d ''key'') d
           else d
         else d)
      in if map_of d2 ''emailAddress'' = None
         then AList.update ''emailAddress'' PNone d2 else d2)"

text \<open>The event of one request of \<open>get_paged\<close>, by the method.\<close>

definition paged_event :: "string \<Rightarrow> string \<Rightarrow> pydict \<Rightarrow> bool \<Rightarrow> event" where
  "paged_event method path items absolute =
     (if method = ''get'' then JiraGet path items absolute else JiraPost path items absolute)"


section \<open>Example data of the witnesses\<close>

text \<open>
  A heap with a Server 6.x user (address 0), the \<open>fields\<close> of an issue (1), the issue
  (2), a comment (3) and an empty dictionary (4).
\<close>

definition example_heap :: heap where
  "example_heap =
     [[(''name'', PStr ''bob''), (''displayName'', PStr ''Bob'')],
      [(''assignee'', PRef 0), (''reporter'', PNone), (''summary'', PStr ''x'')],
      [(''key'', PStr ''A-1''), (''fields'', PRef 1)],
      [(''id'', PStr ''7''), (''author'', PRef 0), (''updateAuthor'', PRef 4)],
      []]"

text \<open>
  A Server/DC environment with a personal token, a Cloud environment without
  credentials, helpers that take \<open>.atlassian.net\<close> for Cloud, and a fresh session.
\<close>

definition cloud_suffix :: "string option \<Rightarrow> bool" where
  "cloud_suffix u = (case u of None \<Rightarrow> False | Some s \<Rightarrow> suffix ''.atlassian.net'' s)"

definition example_helpers :: "oauth_config option \<Rightarrow> env_helpers" where
  "example_helpers oc =
     \<lparr>get_oauth_config_from_env = oc,
      is_atlassian_cloud_url = cloud_suffix,
      is_env_ssl_verify = (\<lambda>_. True),
      get_custom_headers = (\<lambda>_. None)\<rparr>"

definition server_env :: environ where
  "server_env = map_of
     [(''JIRA_URL'', ''https://jira.corp.example''), (''JIRA_PERSONAL_TOKEN'', ''t0ken'')]"

definition cloud_env :: environ where
  "cloud_env = map_of [(''JIRA_URL'', ''https://acme.atlassian.net'')]"

definition example_session :: session where
  "example_session =
     \<lparr>sess_cert = None, sess_verify = VerifyDefault, sess_adapters = [], sess_cookies = []\<rparr>"

text \<open>
  A Server 6.x client with cookie authentication and an active session, and a world
  with an empty heap and the given scripts.
\<close>

definition example_config :: jira_config where
  "example_config =
     \<lparr>cfg_url = Some ''https://jira.corp.example'',
      cfg_auth_type = ''basic'',
      cfg_username = Some ''bob'',
      cfg_api_token = None,
      cfg_personal_token = None,
      cfg_oauth_config = None,
      cfg_ssl_verify = True,
      cfg_projects_filter = None,
      cfg_http_proxy = None,
      cfg_https_proxy = None,
      cfg_no_proxy = None,
      cfg_socks_proxy = None,
      cfg_custom_headers = None,
      cfg_disable_jira_markup_translation = False,
      cfg_client_cert = None,
      cfg_client_key = None,
      cfg_client_key_password = None,
      cfg_jira_mode = ''server_6x'',
      cfg_jira_auth = ''cookie'',
      cfg_jira_password = Some ''hunter2'',
      cfg_jira_ca_file = None\<rparr>"

definition example_client :: jira_client where
  "example_client =
     \<lparr>config = example_config,
      cookie_session = Some ''abc'',
      jira_session = example_session\<lparr>sess_cookies := [(''JSESSIONID'', ''abc'')]\<rparr>\<rparr>"

definition example_world ::
  "http_response outcome list \<Rightarrow> api_reply outcome list \<Rightarrow> world" where
  "example_world http api = \<lparr>w_heap = [], w_http = http, w_api = api, w_trace = []\<rparr>"

text \<open>
  A Cloud client with basic authentication, two pages of a search of which the first
  has a continuation token, and a world with the given heap and replies.
\<close>

definition cloud_client :: jira_client where
  "cloud_client =
     \<lparr>config = example_config\<lparr>cfg_url := Some ''https://acme.atlassian.net'',
                                cfg_api_token := Some ''t0ken'',
                                cfg_jira_mode := ''cloud'',
                                cfg_jira_auth := ''basic'',
                                cfg_jira_password := None\<rparr>,
      cookie_session = None,
      jira_session = example_session\<rparr>"

definition page1 :: pydict where
  "page1 = [(''issues'', PList [PStr ''A-1'']), (''nextPageToken'', PStr ''t1'')]"

definition page2 :: pydict where
  "page2 = [(''issues'', PList [PStr ''A-2''])]"

definition paged_world :: "heap \<Rightarrow> api_reply outcome list \<Rightarrow> world" where
  "paged_world h api = \<lparr>w_heap = h, w_http = [], w_api = api, w_trace = []\<rparr>"


text \<open>
  Helpers whose Markdown conversion always raises, and the reply to a comment request.
\<close>

definition failing_helpers :: text_helpers where
  "failing_helpers =
     \<lparr>preprocessor_markdown_to_jira = (\<lambda>_. Inl (ValueError ''bad markup'')),
      preprocessor_clean_jira_text =
        (\<lambda>v. case v of PStr s \<Rightarrow> Inr s | _ \<Rightarrow> Inl (TypeError ''expected string'')),
      parse_date_str = (\<lambda>v. case v of PStr s \<Rightarrow> Inr s | _ \<Rightarrow> Inr [])\<rparr>"

definition comment_reply :: pydict where
  "comment_reply =
     [(''id'', PStr ''10''), (''body'', PStr ''**hi**''),
      (''created'', PStr ''2024-01-01''), (''updated'', PStr ''2024-01-02''),
      (''author'', PRef 0)]"


section \<open>Verification: API version rewriting\<close>

subsection \<open>Facts about replacement\<close>

lemma str_replace_ne_hit:
  "prefix old s \<Longrightarrow> old \<noteq> [] \<Longrightarrow>
   str_replace_ne old new s = new @ str_replace_ne old new (drop (length old) s)"
  by (cases s) (auto simp: drop_Cons')

lemma str_replace_ne_miss:
  "\<not> prefix old (c # cs) \<Longrightarrow>
   str_replace_ne old new (c # cs) = c # str_replace_ne old new cs"
  by simp

lemma str_replace_ne_absent:
  "\<not> sublist old s \<Longrightarrow> str_replace_ne old new s = s"
  by (induction s) (auto simp: sublist_Cons_right)

lemma prefix_within:
  "length xs \<le> length ys \<Longrightarrow> prefix xs (ys @ zs) \<longleftrightarrow> prefix xs ys"
  by (auto simp: prefix_append)

text \<open>
  The leftmost occurrence is the one replaced: when \<open>old\<close> does not start anywhere
  inside \<open>pre\<close>, the text up to it is kept, the occurrence becomes \<open>new\<close>, and the scan
  resumes behind it.
\<close>

lemma str_replace_ne_first:
  "old \<noteq> [] \<Longrightarrow> \<not> sublist old (pre @ butlast old) \<Longrightarrow>
   str_replace_ne old new (pre @ old @ rest) = pre @ new @ str_replace_ne old new rest"
proof (induction pre)
  case Nil
  then show ?case using str_replace_ne_hit [of old "old @ rest" new] by simp
next
  case (Cons c pre)
  have "\<not> prefix old (c # pre @ old @ rest)"
  proof
    assume p: "prefix old (c # pre @ old @ rest)"
    have "length old \<le> length ((c # pre) @ butlast old)" by simp
    moreover have "c # pre @ old @ rest = ((c # pre) @ butlast old) @ (last old # rest)"
      using Cons.prems(1) by simp
    ultimately have "prefix old ((c # pre) @ butlast old)"
      using p by (simp only: prefix_within)
    with Cons.prems(2) show False by auto
  qed
  moreover have "\<not> sublist old (pre @ butlast old)"
    using Cons.prems(2) by (simp add: sublist_Cons_right)
  ultimately show ?case using Cons.IH Cons.prems(1) by simp
qed

lemma prefix_replace_back:
  "border_free old new q \<Longrightarrow> prefix q (str_replace_ne old new t) \<Longrightarrow> prefix q t"
proof (induction q arbitrary: t)
  case Nil
  then show ?case by simp
next
  case (Cons x q)
  show ?case
  proof (cases t)
    case Nil
    with Cons.prems show ?thesis by simp
  next
    case (Cons c cs)
    show ?thesis
    proof (cases "prefix old (c # cs)")
      case True
      with Cons.prems(2) Cons
      have "prefix (x # q) (new @ str_replace_ne old new (drop (length old - 1) cs))"
        by simp
      then have "prefix (x # q) new \<or> prefix new (x # q)"
        by (metis prefix_append prefix_def)
      with Cons.prems(1) have "prefix (x # q) old" by auto
      with True have "prefix (x # q) (c # cs)" using prefix_order.trans by blast
      with Cons show ?thesis by simp
    next
      case False
      with Cons.prems(2) Cons have "x = c" "prefix q (str_replace_ne old new cs)" by auto
      moreover from Cons.prems(1) have "border_free old new q" by simp
      ultimately show ?thesis using Cons.IH Cons by simp
    qed
  qed
qed

lemma v3_border_free: "border_free ''/rest/api/3/'' ''/rest/api/2/'' ''rest/api/3/''"
  by simp

lemma v3_prefix_back:
  "prefix ''rest/api/3/'' (str_replace_ne ''/rest/api/3/'' ''/rest/api/2/'' t) \<Longrightarrow>
   prefix ''rest/api/3/'' t"
  by (rule prefix_replace_back [OF v3_border_free])

lemma v3_shape:
  "sublist ''/rest/api/3/'' (''/rest/api/2/'' @ u) \<longleftrightarrow>
   prefix ''rest/api/3/'' u \<or> sublist ''/rest/api/3/'' u"
  by (simp add: sublist_Cons_right)

lemma v3_overlap_prefix:
  "prefix ''/rest/api/3/'' s \<Longrightarrow> prefix ''rest/api/3/'' (drop 12 s) \<Longrightarrow>
   prefix ''/rest/api/3/rest/api/3/'' s"
proof -
  assume a: "prefix ''/rest/api/3/'' s" and b: "prefix ''rest/api/3/'' (drop 12 s)"
  from a obtain r where s: "s = ''/rest/api/3/'' @ r" by (auto simp: prefix_def)
  then have "drop 12 s = r" by simp
  with b have "prefix (''/rest/api/3/'' @ ''rest/api/3/'') (''/rest/api/3/'' @ r)"
    by (simp only: same_prefix_prefix)
  with s show ?thesis by simp
qed

lemma v3_hit:
  assumes "prefix ''/rest/api/3/'' s"
  shows "str_replace_ne ''/rest/api/3/'' ''/rest/api/2/'' s =
         ''/rest/api/2/'' @ str_replace_ne ''/rest/api/3/'' ''/rest/api/2/'' (drop 12 s)"
proof -
  have "length ''/rest/api/3/'' = 12" by simp
  with str_replace_ne_hit [OF assms, of "''/rest/api/2/''"] show ?thesis
    by (simp only:) simp
qed

lemma no_v3_after_replace:
  "\<not> sublist ''/rest/api/3/rest/api/3/'' s \<Longrightarrow>
   \<not> sublist ''/rest/api/3/'' (str_replace_ne ''/rest/api/3/'' ''/rest/api/2/'' s)"
proof (induction s rule: length_induct)
  case (1 s)
  show ?case
  proof (cases "prefix ''/rest/api/3/'' s")
    case True
    let ?rest = "drop 12 s"
    from True have "length ''/rest/api/3/'' \<le> length s" by (rule prefix_length_le)
    then have len: "length ?rest < length s" by simp
    have "sublist ?rest s" by (rule sublist_drop)
    with "1.prems" have "\<not> sublist ''/rest/api/3/rest/api/3/'' ?rest"
      using sublist_order.order.trans by blast
    with "1.IH" len
    have ih: "\<not> sublist ''/rest/api/3/''
                (str_replace_ne ''/rest/api/3/'' ''/rest/api/2/'' ?rest)"
      by blast
    have "\<not> prefix ''rest/api/3/'' ?rest"
    proof
      assume "prefix ''rest/api/3/'' ?rest"
      with True have "prefix ''/rest/api/3/rest/api/3/'' s"
        by (rule v3_overlap_prefix)
      then have "sublist ''/rest/api/3/rest/api/3/'' s"
        by (rule prefix_imp_sublist)
      with "1.prems" show False by blast
    qed
    with v3_prefix_back
    have np: "\<not> prefix ''rest/api/3/''
                (str_replace_ne ''/rest/api/3/'' ''/rest/api/2/'' ?rest)"
      by blast
    show ?thesis
      by (simp only: v3_hit [OF True] v3_shape ih np simp_thms not_False_eq_True)
  next
    case False
    show ?thesis
    proof (cases s)
      case Nil
      then show ?thesis by simp
    next
      case (Cons c cs)
      have "sublist cs s" unfolding Cons by (simp add: sublist_Cons_right)
      with "1.prems" have "\<not> sublist ''/rest/api/3/rest/api/3/'' cs"
        using sublist_order.order.trans by blast
      with "1.IH" Cons
      have ih: "\<not> sublist ''/rest/api/3/''
                  (str_replace_ne ''/rest/api/3/'' ''/rest/api/2/'' cs)"
        by simp
      have np: "\<not> prefix ''/rest/api/3/''
                  (c # str_replace_ne ''/rest/api/3/'' ''/rest/api/2/'' cs)"
      proof
        assume "prefix ''/rest/api/3/''
                  (c # str_replace_ne ''/rest/api/3/'' ''/rest/api/2/'' cs)"
        then have h: "CHR ''/'' = c \<and>
            prefix ''rest/api/3/'' (str_replace_ne ''/rest/api/3/'' ''/rest/api/2/'' cs)"
          by (rule Cons_prefix_Cons [THEN iffD1])
        from h have c: "CHR ''/'' = c" by (rule conjunct1)
        from h have "prefix ''rest/api/3/''
                       (str_replace_ne ''/rest/api/3/'' ''/rest/api/2/'' cs)"
          by (rule conjunct2)
        then have "prefix ''rest/api/3/'' cs" by (rule v3_prefix_back)
        with c have "CHR ''/'' = c \<and> prefix ''rest/api/3/'' cs" by (rule conjI)
        then have "prefix ''/rest/api/3/'' (c # cs)"
          by (rule Cons_prefix_Cons [THEN iffD2])
        with False Cons show False by blast
      qed
      from False Cons have "\<not> prefix ''/rest/api/3/'' (c # cs)" by blast
      then have "str_replace_ne ''/rest/api/3/'' ''/rest/api/2/'' s =
                 c # str_replace_ne ''/rest/api/3/'' ''/rest/api/2/'' cs"
        unfolding Cons by (rule str_replace_ne_miss)
      moreover
      have "\<not> sublist ''/rest/api/3/''
               (c # str_replace_ne ''/rest/api/3/'' ''/rest/api/2/'' cs)"
        by (simp only: sublist_Cons_right [of _ c] ih np simp_thms not_False_eq_True)
      ultimately show ?thesis by (simp only: not_False_eq_True)
    qed
  qed
qed

lemma normalize_api_path_True:
  "normalize_api_path url True = str_replace_ne ''/rest/api/3/'' ''/rest/api/2/'' url"
  by (simp add: normalize_api_path_def str_replace_def str_replace_ne_absent)

lemma adapter_send_url_normalize:
  "adapter_send_url force_v2 (Some url) = Some (normalize_api_path url force_v2)"
  by (cases url) (simp_all add: adapter_send_url_def normalize_api_path_def str_truthy_def)

text \<open>
  Claim C2, as the code has it. With \<open>force_v2\<close> false the URL is returned as it is, and
  so is, with either flag, a URL without \<open>/rest/api/3/\<close>. With \<open>force_v2\<close> true the
  leftmost occurrence of \<open>/rest/api/3/\<close> becomes \<open>/rest/api/2/\<close> and the rewriting
  goes on behind it, so the occurrences replaced are the non-overlapping ones of a scan
  from the left; the result is free of \<open>/rest/api/3/\<close> whenever no two occurrences
  overlap in the input, that is, whenever the input does not contain
  \<open>/rest/api/3/rest/api/3/\<close>.
\<close>

theorem normalize_api_path_rewrite:
  "normalize_api_path url False = url \<and>
   (\<not> sublist ''/rest/api/3/'' url \<longrightarrow> normalize_api_path url force_v2 = url) \<and>
   (\<not> sublist ''/rest/api/3/'' (pre @ ''/rest/api/3'') \<longrightarrow>
      normalize_api_path (pre @ ''/rest/api/3/'' @ rest) True =
      pre @ ''/rest/api/2/'' @ normalize_api_path rest True) \<and>
   (\<not> sublist ''/rest/api/3/rest/api/3/'' url \<longrightarrow>
      \<not> sublist ''/rest/api/3/'' (normalize_api_path url True))"
proof (intro conjI impI)
  show "normalize_api_path url False = url"
    by (simp add: normalize_api_path_def)
next
  assume "\<not> sublist ''/rest/api/3/'' url"
  then show "normalize_api_path url force_v2 = url"
    by (simp add: normalize_api_path_def)
next
  assume "\<not> sublist ''/rest/api/3/'' (pre @ ''/rest/api/3'')"
  moreover have "butlast ''/rest/api/3/'' = ''/rest/api/3''" by simp
  ultimately have "\<not> sublist ''/rest/api/3/'' (pre @ butlast ''/rest/api/3/'')"
    by (simp only: not_False_eq_True)
  then have "str_replace_ne ''/rest/api/3/'' ''/rest/api/2/'' (pre @ ''/rest/api/3/'' @ rest) =
             pre @ ''/rest/api/2/'' @ str_replace_ne ''/rest/api/3/'' ''/rest/api/2/'' rest"
    by (rule str_replace_ne_first [rotated]) simp
  then show "normalize_api_path (pre @ ''/rest/api/3/'' @ rest) True =
             pre @ ''/rest/api/2/'' @ normalize_api_path rest True"
    by (simp only: normalize_api_path_True)
next
  assume "\<not> sublist ''/rest/api/3/rest/api/3/'' url"
  then show "\<not> sublist ''/rest/api/3/'' (normalize_api_path url True)"
    unfolding normalize_api_path_True by (rule no_v3_after_replace)
qed

theorem normalize_api_path_rewrite_witness:
  "normalize_api_path ''https://jira.example.com/rest/api/3/issue/A-1'' False =
     ''https://jira.example.com/rest/api/3/issue/A-1'' \<and>
   normalize_api_path ''https://jira.example.com/rest/api/2/issue/A-1'' True =
     ''https://jira.example.com/rest/api/2/issue/A-1'' \<and>
   normalize_api_path (''https://jira.example.com'' @ ''/rest/api/3/'' @ ''issue/A-1'') True =
     ''https://jira.example.com/rest/api/2/issue/A-1'' \<and>
   \<not> sublist ''/rest/api/3/''
     (normalize_api_path ''https://jira.example.com/rest/api/3/issue/A-1'' True)"
proof -
  let ?u = "''https://jira.example.com/rest/api/3/issue/A-1''"
  let ?v = "''https://jira.example.com/rest/api/2/issue/A-1''"
  have a: "\<not> sublist ''/rest/api/3/'' ?v" by code_simp
  have b: "\<not> sublist ''/rest/api/3/'' (''https://jira.example.com'' @ ''/rest/api/3'')"
    by code_simp
  have c: "\<not> sublist ''/rest/api/3/rest/api/3/'' ?u" by code_simp
  have d: "normalize_api_path ''issue/A-1'' True = ''issue/A-1''" by code_simp
  from normalize_api_path_rewrite [of ?u True "[]" "[]"]
  have "normalize_api_path ?u False = ?u" by blast
  moreover from a normalize_api_path_rewrite [of ?v True "[]" "[]"]
  have "normalize_api_path ?v True = ?v" by blast
  moreover from b normalize_api_path_rewrite [of ?u True "''https://jira.example.com''" "''issue/A-1''"]
  have "normalize_api_path (''https://jira.example.com'' @ ''/rest/api/3/'' @ ''issue/A-1'') True =
        ''https://jira.example.com'' @ ''/rest/api/2/'' @ normalize_api_path ''issue/A-1'' True"
    by blast
  then have "normalize_api_path (''https://jira.example.com'' @ ''/rest/api/3/'' @ ''issue/A-1'') True = ?v"
    unfolding d by simp
  moreover from c normalize_api_path_rewrite [of ?u True "[]" "[]"]
  have "\<not> sublist ''/rest/api/3/'' (normalize_api_path ?u True)" by blast
  ultimately show ?thesis by blast
qed

text \<open>
  The claim as it was stated fails where two occurrences overlap: the second one
  survives the rewriting.
\<close>

theorem normalize_api_path_counterexample:
  "sublist ''/rest/api/3/'' ''https://jira.example.com/rest/api/3/rest/api/3/issue'' \<and>
   normalize_api_path ''https://jira.example.com/rest/api/3/rest/api/3/issue'' True =
     ''https://jira.example.com/rest/api/2/rest/api/3/issue'' \<and>
   sublist ''/rest/api/3/''
     (normalize_api_path ''https://jira.example.com/rest/api/3/rest/api/3/issue'' True)"
  by code_simp


section \<open>Verification: field mappers\<close>

lemma prefix_nth: "prefix h0 h \<Longrightarrow> b < length h0 \<Longrightarrow> h ! b = h0 ! b"
  by (auto simp: prefix_def nth_append)

lemma prefix_update_fresh: "prefix h0 h \<Longrightarrow> length h0 \<le> a \<Longrightarrow> prefix h0 (h[a := d])"
  by (auto simp: prefix_def list_update_append)

lemma prefix_setitem_fresh:
  "prefix h0 h \<Longrightarrow> length h0 \<le> a \<Longrightarrow> prefix h0 (dict_setitem h a k v)"
  by (simp add: dict_setitem_def prefix_update_fresh)

lemma py_truthy_copy:
  "a < length h \<Longrightarrow> h ! a \<noteq> [] \<Longrightarrow> py_truthy (h @ [h ! a]) v = py_truthy h v"
  by (cases v) (auto simp: py_truthy_def nth_append)

lemma normalize_user_response_empty:
  "a < length h \<Longrightarrow> h ! a = [] \<Longrightarrow> normalize_user_response h (PRef a) = (Inr (PRef a), h)"
  by (simp add: normalize_user_response_def py_truthy_def)


lemma dict_copy_reads:
  "dict_contains (h @ [d]) (length h) k = (map_of d k \<noteq> None)"
  "dict_getitem (h @ [d]) (length h) k = (case map_of d k of Some v \<Rightarrow> v | None \<Rightarrow> PNone)"
  "dict_setitem (h @ [d]) (length h) k v = h @ [AList.update k v d]"
  by (simp_all add: dict_contains_def dict_getitem_def dict_setitem_def)

lemma normalize_user_response_closed:
  assumes "a < length h" "h ! a \<noteq> []"
  shows "normalize_user_response h (PRef a) = (Inr (PRef (length h)), h @ [user_items h (h ! a)])"
proof -
  have t: "\<And>v. py_truthy (h @ [h ! a]) v = py_truthy h v"
    using assms by (rule py_truthy_copy)
  have "py_truthy h (PRef a)" using assms by (simp add: py_truthy_def)
  then show ?thesis
    using assms(1)
    by (simp add: normalize_user_response_def heap_alloc_def Let_def dict_copy_reads t
         user_items_def item_def update_conv' del: not_None_eq)
qed

lemma prefixI_nth:
  assumes "length h \<le> length h'" and "\<And>b. b < length h \<Longrightarrow> h' ! b = h ! b"
  shows "prefix h h'"
proof -
  have "take (length h) h' = h"
    using assms by (intro nth_equalityI) simp_all
  then show ?thesis by (metis take_is_prefix)
qed

lemma normalize_user_key_effect:
  assumes d: "d < length h"
  shows "\<exists>h'. normalize_user_key h d k = (Inr (), h') \<and> length h \<le> length h' \<and>
      (\<forall>b<length h. b \<noteq> d \<longrightarrow> h' ! b = h ! b) \<and>
      (\<forall>k'. k' \<noteq> k \<longrightarrow> map_of (h' ! d) k' = map_of (h ! d) k') \<and>
      (\<forall>uv. map_of (h ! d) k = Some uv \<longrightarrow>
         (is_dict h uv \<longrightarrow>
            (\<exists>u hj. normalize_user_response h uv = (Inr u, hj) \<and>
               map_of (h' ! d) k = Some u \<and> (u = uv \<or> u = PRef (length h)) \<and>
               is_dict hj u \<and> length hj = length h' \<and>
               (\<forall>b<length hj. b \<noteq> d \<longrightarrow> h' ! b = hj ! b))) \<and>
         (\<not> is_dict h uv \<longrightarrow> h' = h)) \<and>
      (map_of (h ! d) k = None \<longrightarrow> h' = h)"
proof (cases "map_of (h ! d) k")
  case None
  then show ?thesis
    by (simp add: normalize_user_key_def dict_contains_def)
next
  case (Some uv)
  show ?thesis
  proof (cases "is_dict h uv")
    case False
    with Some show ?thesis
      by (simp add: normalize_user_key_def dict_contains_def dict_getitem_def)
  next
    case True
    then obtain x where uv: "uv = PRef x" and x: "x < length h"
      by (cases uv) (auto simp: is_dict_def)
    have get: "dict_contains h d k" "dict_getitem h d k = PRef x"
      using Some uv by (simp_all add: dict_contains_def dict_getitem_def)
    show ?thesis
    proof (cases "h ! x = []")
      case True
      have r: "normalize_user_response h (PRef x) = (Inr (PRef x), h)"
        using x True by (rule normalize_user_response_empty)
      have k: "normalize_user_key h d k = (Inr (), dict_setitem h d k (PRef x))"
        using get x r by (simp add: normalize_user_key_def is_dict_def)
      show ?thesis
        unfolding k using d Some uv x r
        by (auto simp: dict_setitem_def update_conv' is_dict_def)
    next
      case False
      have r: "normalize_user_response h (PRef x) =
               (Inr (PRef (length h)), h @ [user_items h (h ! x)])"
        using x False by (rule normalize_user_response_closed)
      have k: "normalize_user_key h d k =
               (Inr (), dict_setitem (h @ [user_items h (h ! x)]) d k (PRef (length h)))"
        using get x r by (simp add: normalize_user_key_def is_dict_def)
      show ?thesis
        unfolding k using d Some uv x r
        by (auto simp: dict_setitem_def update_conv' is_dict_def nth_append)
    qed
  qed
qed

text \<open>One user-valued key after a chain of steps on the dictionary at d.\<close>

lemma user_key_survives:
  assumes step: "normalize_user_key h d k = (Inr (), h1)"
    and eff: "length h \<le> length h1"
      "\<forall>uv. map_of (h ! d) k = Some uv \<longrightarrow>
         (is_dict h uv \<longrightarrow>
            (\<exists>u hj. normalize_user_response h uv = (Inr u, hj) \<and>
               map_of (h1 ! d) k = Some u \<and> (u = uv \<or> u = PRef (length h)) \<and>
               is_dict hj u \<and> length hj = length h1 \<and>
               (\<forall>b<length hj. b \<noteq> d \<longrightarrow> h1 ! b = hj ! b))) \<and>
         (\<not> is_dict h uv \<longrightarrow> h1 = h)"
      "map_of (h ! d) k = None \<longrightarrow> h1 = h"
    and base: "prefix h0 h" "length h0 < d" "d < length h" "map_of (h ! d) k = map_of F k"
    and later: "length h1 \<le> length h'" "d < length h'"
      "\<forall>b<length h1. b \<noteq> d \<longrightarrow> b \<noteq> length h0 \<longrightarrow> h' ! b = h1 ! b"
      "map_of (h' ! d) k = map_of (h1 ! d) k"
  shows "(map_of F k = None \<longrightarrow> py_get h' (PRef d) k = None) \<and>
     (\<forall>uv. map_of F k = Some uv \<longrightarrow>
        ((\<forall>x. uv \<noteq> PRef x) \<longrightarrow> py_get h' (PRef d) k = Some uv) \<and>
        (is_dict h0 uv \<longrightarrow>
           (\<exists>u hi hj. prefix h0 hi \<and> normalize_user_response hi uv = (Inr u, hj) \<and>
              py_get h' (PRef d) k = Some u \<and>
              (\<forall>x. u = PRef x \<longrightarrow> x < length hj \<and> x < length h' \<and> h' ! x = hj ! x))))"
proof (intro conjI allI impI)
  assume "map_of F k = None"
  with eff(3) base(4) have "h1 = h" by simp
  with later(2,4) base(4) \<open>map_of F k = None\<close> show "py_get h' (PRef d) k = None"
    by (simp add: py_get_def)
next
  fix uv assume uv: "map_of F k = Some uv" and nr: "\<forall>x. uv \<noteq> PRef x"
  then have "\<not> is_dict h uv" by (cases uv) (auto simp: is_dict_def)
  with eff(2) base(4) uv have "h1 = h" by simp
  with later(2,4) base(4) uv show "py_get h' (PRef d) k = Some uv"
    by (simp add: py_get_def)
next
  fix uv assume uv: "map_of F k = Some uv" and dict: "is_dict h0 uv"
  then obtain x0 where x0: "uv = PRef x0" "x0 < length h0"
    by (cases uv) (auto simp: is_dict_def)
  from base(1) have l0: "length h0 \<le> length h" by (rule prefix_length_le)
  with x0 have "is_dict h uv" by (simp add: is_dict_def)
  with eff(2) base(4) uv obtain u hj where
    r: "normalize_user_response h uv = (Inr u, hj)" and
    m: "map_of (h1 ! d) k = Some u" and
    c: "u = uv \<or> u = PRef (length h)" and
    dj: "is_dict hj u" and lj: "length hj = length h1" and
    same: "\<forall>b<length hj. b \<noteq> d \<longrightarrow> h1 ! b = hj ! b"
    by auto
  have g: "py_get h' (PRef d) k = Some u"
    using later(2,4) m by (simp add: py_get_def)
  have "\<forall>x. u = PRef x \<longrightarrow> x < length hj \<and> x < length h' \<and> h' ! x = hj ! x"
  proof (intro allI impI)
    fix x assume ux: "u = PRef x"
    with dj have xj: "x < length hj" by (simp add: is_dict_def)
    from c ux x0 l0 base(2,3) have ne: "x \<noteq> d" "x \<noteq> length h0" by auto
    from xj lj later(1) have "x < length h'" by simp
    moreover from later(3) xj lj ne have "h' ! x = h1 ! x" by simp
    moreover from same xj ne have "h1 ! x = hj ! x" by simp
    ultimately show "x < length hj \<and> x < length h' \<and> h' ! x = hj ! x"
      using xj by simp
  qed
  with r g base(1) show "\<exists>u hi hj. prefix h0 hi \<and> normalize_user_response hi uv = (Inr u, hj) \<and>
              py_get h' (PRef d) k = Some u \<and>
              (\<forall>x. u = PRef x \<longrightarrow> x < length hj \<and> x < length h' \<and> h' ! x = hj ! x)"
    by blast
qed

lemma normalize_user_key_frameE:
  assumes "d < length h"
  obtains h' where
    "normalize_user_key h d k = (Inr (), h')"
    "length h \<le> length h'"
    "\<forall>b<length h. b \<noteq> d \<longrightarrow> h' ! b = h ! b"
  using normalize_user_key_effect [OF assms, of k] by (elim exE conjE) (rule that)

lemma comment_frame:
  assumes a: "a < length h"
  shows "\<exists>v h'. normalize_comment_response h (PRef a) = (Inr v, h') \<and> prefix h h' \<and> is_dict h' v"
proof (cases "h ! a = []")
  case True
  with a show ?thesis
    by (simp add: normalize_comment_response_def py_truthy_def is_dict_def)
next
  case False
  let ?n = "length h"
  let ?h1 = "h @ [h ! a]"
  have n: "?n < length ?h1" by simp
  obtain h2 where
    s1: "normalize_user_key ?h1 ?n ''author'' = (Inr (), h2)" and
    l1: "length ?h1 \<le> length h2" and
    o1: "\<forall>b<length ?h1. b \<noteq> ?n \<longrightarrow> h2 ! b = ?h1 ! b"
    by (rule normalize_user_key_frameE [OF n])
  from l1 have n2: "?n < length h2" by simp
  obtain h3 where
    s2: "normalize_user_key h2 ?n ''updateAuthor'' = (Inr (), h3)" and
    l2: "length h2 \<le> length h3" and
    o2: "\<forall>b<length h2. b \<noteq> ?n \<longrightarrow> h3 ! b = h2 ! b"
    by (rule normalize_user_key_frameE [OF n2])
  have eq: "normalize_comment_response h (PRef a) = (Inr (PRef ?n), h3)"
    using a False s1 s2
    by (simp add: normalize_comment_response_def py_truthy_def heap_alloc_def)
  have "prefix h h3"
  proof (rule prefixI_nth)
    show "length h \<le> length h3" using l1 l2 by simp
  next
    fix b assume b: "b < length h"
    with o2 l1 have "h3 ! b = h2 ! b" by simp
    also from o1 b have "h2 ! b = ?h1 ! b" by simp
    also from b have "?h1 ! b = h ! b" by (simp add: nth_append)
    finally show "h3 ! b = h ! b" .
  qed
  moreover have "is_dict h3 (PRef ?n)" using l1 l2 by (simp add: is_dict_def)
  ultimately show ?thesis using eq by blast
qed

lemma normalize_user_key_effectE:
  assumes "d < length h"
  obtains h' where
    "normalize_user_key h d k = (Inr (), h')"
    "length h \<le> length h'"
    "\<forall>b<length h. b \<noteq> d \<longrightarrow> h' ! b = h ! b"
    "\<forall>k'. k' \<noteq> k \<longrightarrow> map_of (h' ! d) k' = map_of (h ! d) k'"
    "\<forall>uv. map_of (h ! d) k = Some uv \<longrightarrow>
         (is_dict h uv \<longrightarrow>
            (\<exists>u hj. normalize_user_response h uv = (Inr u, hj) \<and>
               map_of (h' ! d) k = Some u \<and> (u = uv \<or> u = PRef (length h)) \<and>
               is_dict hj u \<and> length hj = length h' \<and>
               (\<forall>b<length hj. b \<noteq> d \<longrightarrow> h' ! b = hj ! b))) \<and>
         (\<not> is_dict h uv \<longrightarrow> h' = h)"
    "map_of (h ! d) k = None \<longrightarrow> h' = h"
  using normalize_user_key_effect [OF assms, of k] by (elim exE conjE) (rule that)

lemma issue_fields_copy:
  assumes a: "a < length h" and ne: "h ! a \<noteq> []"
    and fv: "map_of (h ! a) ''fields'' = Some (PRef f)" and f: "f < Suc (length h)"
  shows "\<exists>h'. normalize_issue_response h (PRef a) = (Inr (PRef (length h)), h') \<and>
     prefix h h' \<and> Suc (length h) < length h' \<and>
     (\<forall>k. k \<noteq> ''fields'' \<longrightarrow> py_get h' (PRef (length h)) k = map_of (h ! a) k) \<and>
     py_get h' (PRef (length h)) ''fields'' = Some (PRef (Suc (length h))) \<and>
     (\<forall>k. k \<noteq> ''assignee'' \<and> k \<noteq> ''reporter'' \<and> k \<noteq> ''creator'' \<longrightarrow>
        py_get h' (PRef (Suc (length h))) k = map_of ((h @ [h ! a]) ! f) k) \<and>
     (\<forall>k. k = ''assignee'' \<or> k = ''reporter'' \<or> k = ''creator'' \<longrightarrow>
        (map_of ((h @ [h ! a]) ! f) k = None \<longrightarrow> py_get h' (PRef (Suc (length h))) k = None) \<and>
        (\<forall>uv. map_of ((h @ [h ! a]) ! f) k = Some uv \<longrightarrow>
           ((\<forall>x. uv \<noteq> PRef x) \<longrightarrow> py_get h' (PRef (Suc (length h))) k = Some uv) \<and>
           (is_dict h uv \<longrightarrow>
              (\<exists>u hi hj. prefix h hi \<and> normalize_user_response hi uv = (Inr u, hj) \<and>
                 py_get h' (PRef (Suc (length h))) k = Some u \<and>
                 (\<forall>x. u = PRef x \<longrightarrow> x < length hj \<and> x < length h' \<and> h' ! x = hj ! x)))))"
proof -
  let ?n = "length h"
  let ?d = "Suc (length h)"
  let ?h1 = "h @ [h ! a]"
  let ?F = "?h1 ! f"
  let ?h2 = "?h1 @ [?F]"
  let ?app = "\<lambda>h k h'. \<forall>uv. map_of (h ! ?d) k = Some uv \<longrightarrow>
         (is_dict h uv \<longrightarrow>
            (\<exists>u hj. normalize_user_response h uv = (Inr u, hj) \<and>
               map_of (h' ! ?d) k = Some u \<and> (u = uv \<or> u = PRef (length h)) \<and>
               is_dict hj u \<and> length hj = length h' \<and>
               (\<forall>b<length hj. b \<noteq> ?d \<longrightarrow> h' ! b = hj ! b))) \<and>
         (\<not> is_dict h uv \<longrightarrow> h' = h)"
  have d2: "?d < length ?h2" by simp
  obtain h3 where
    s1: "normalize_user_key ?h2 ?d ''assignee'' = (Inr (), h3)" and
    l1: "length ?h2 \<le> length h3" and
    o1: "\<forall>b<length ?h2. b \<noteq> ?d \<longrightarrow> h3 ! b = ?h2 ! b" and
    k1: "\<forall>k'. k' \<noteq> ''assignee'' \<longrightarrow> map_of (h3 ! ?d) k' = map_of (?h2 ! ?d) k'" and
    a1: "?app ?h2 ''assignee'' h3" and
    e1: "map_of (?h2 ! ?d) ''assignee'' = None \<longrightarrow> h3 = ?h2"
    by (rule normalize_user_key_effectE [OF d2])
  from l1 have d3: "?d < length h3" by simp
  obtain h4 where
    s2: "normalize_user_key h3 ?d ''reporter'' = (Inr (), h4)" and
    l2: "length h3 \<le> length h4" and
    o2: "\<forall>b<length h3. b \<noteq> ?d \<longrightarrow> h4 ! b = h3 ! b" and
    k2: "\<forall>k'. k' \<noteq> ''reporter'' \<longrightarrow> map_of (h4 ! ?d) k' = map_of (h3 ! ?d) k'" and
    a2: "?app h3 ''reporter'' h4" and
    e2: "map_of (h3 ! ?d) ''reporter'' = None \<longrightarrow> h4 = h3"
    by (rule normalize_user_key_effectE [OF d3])
  from l2 d3 have d4: "?d < length h4" by simp
  obtain h5 where
    s3: "normalize_user_key h4 ?d ''creator'' = (Inr (), h5)" and
    l3: "length h4 \<le> length h5" and
    o3: "\<forall>b<length h4. b \<noteq> ?d \<longrightarrow> h5 ! b = h4 ! b" and
    k3: "\<forall>k'. k' \<noteq> ''creator'' \<longrightarrow> map_of (h5 ! ?d) k' = map_of (h4 ! ?d) k'" and
    a3: "?app h4 ''creator'' h5" and
    e3: "map_of (h4 ! ?d) ''creator'' = None \<longrightarrow> h5 = h4"
    by (rule normalize_user_key_effectE [OF d4])
  let ?h' = "dict_setitem h5 ?n ''fields'' (PRef ?d)"
  have len: "length ?h' = length h5" by (simp add: dict_setitem_def)
  from l3 d4 have d5: "?d < length h5" by simp
  have eq: "normalize_issue_response h (PRef a) = (Inr (PRef ?n), ?h')"
    using a ne fv f s1 s2 s3
    by (simp add: normalize_issue_response_def py_truthy_def heap_alloc_def dict_contains_def
        dict_getitem_def is_dict_def)
  have other: "\<And>b. b \<noteq> ?n \<Longrightarrow> ?h' ! b = h5 ! b"
    by (simp add: dict_setitem_def)
  have n5: "h5 ! ?n = h ! a"
  proof -
    from o3 d4 have "h5 ! ?n = h4 ! ?n" by simp
    also from o2 d3 have "h4 ! ?n = h3 ! ?n" by simp
    also from o1 have "h3 ! ?n = ?h2 ! ?n" by simp
    also have "?h2 ! ?n = h ! a" by (simp add: nth_append)
    finally show ?thesis .
  qed
  have p2: "prefix h ?h2" by (simp add: prefix_def)
  have p3: "prefix h h3"
  proof (rule prefixI_nth)
    show "length h \<le> length h3" using l1 by simp
  next
    fix b assume "b < length h"
    with o1 show "h3 ! b = h ! b" by (simp add: nth_append)
  qed
  have p4: "prefix h h4"
  proof (rule prefixI_nth)
    show "length h \<le> length h4" using d4 by simp
  next
    fix b assume b: "b < length h"
    with o2 d3 have "h4 ! b = h3 ! b" by simp
    with p3 b show "h4 ! b = h ! b" by (simp add: prefix_nth)
  qed
  have p5: "prefix h h5"
  proof (rule prefixI_nth)
    show "length h \<le> length h5" using d5 by simp
  next
    fix b assume b: "b < length h"
    with o3 d4 have "h5 ! b = h4 ! b" by simp
    with p4 b show "h5 ! b = h ! b" by (simp add: prefix_nth)
  qed
  have p': "prefix h ?h'"
    using p5 by (rule prefix_setitem_fresh) simp
  have keys: "\<forall>k. k \<noteq> ''fields'' \<longrightarrow> py_get ?h' (PRef ?n) k = map_of (h ! a) k"
    using d5 n5 by (simp add: py_get_def dict_setitem_def update_conv')
  have fld: "py_get ?h' (PRef ?n) ''fields'' = Some (PRef ?d)"
    using d5 by (simp add: py_get_def dict_setitem_def update_conv')
  have F2: "?h2 ! ?d = ?F" by (simp add: nth_append)
  have sub: "\<forall>k. k \<noteq> ''assignee'' \<and> k \<noteq> ''reporter'' \<and> k \<noteq> ''creator'' \<longrightarrow>
        py_get ?h' (PRef ?d) k = map_of ?F k"
  proof (intro allI impI)
    fix k assume k: "k \<noteq> ''assignee'' \<and> k \<noteq> ''reporter'' \<and> k \<noteq> ''creator''"
    have "py_get ?h' (PRef ?d) k = map_of (h5 ! ?d) k"
      using d5 by (simp add: py_get_def dict_setitem_def)
    also from k3 k have "\<dots> = map_of (h4 ! ?d) k" by simp
    also from k2 k have "\<dots> = map_of (h3 ! ?d) k" by simp
    also from k1 k have "\<dots> = map_of (?h2 ! ?d) k" by simp
    finally show "py_get ?h' (PRef ?d) k = map_of ?F k" unfolding F2 .
  qed
  have dl: "?d < length ?h'" using d5 len by simp
  have hd: "?h' ! ?d = h5 ! ?d" by (rule other) simp
  note surv = user_key_survives [where ?h0.0 = h and d = ?d and F = ?F and h' = ?h']
  have A: "(map_of ?F ''assignee'' = None \<longrightarrow> py_get ?h' (PRef ?d) ''assignee'' = None) \<and>
     (\<forall>uv. map_of ?F ''assignee'' = Some uv \<longrightarrow>
        ((\<forall>x. uv \<noteq> PRef x) \<longrightarrow> py_get ?h' (PRef ?d) ''assignee'' = Some uv) \<and>
        (is_dict h uv \<longrightarrow>
           (\<exists>u hi hj. prefix h hi \<and> normalize_user_response hi uv = (Inr u, hj) \<and>
              py_get ?h' (PRef ?d) ''assignee'' = Some u \<and>
              (\<forall>x. u = PRef x \<longrightarrow> x < length hj \<and> x < length ?h' \<and> ?h' ! x = hj ! x))))"
  proof (rule surv [OF s1 l1 a1 e1 p2 _ d2])
    show "length h < ?d" by simp
    show "map_of (?h2 ! ?d) ''assignee'' = map_of ?F ''assignee''" unfolding F2 ..
    show "length h3 \<le> length ?h'" using l2 l3 len by simp
    show "?d < length ?h'" by (rule dl)
    show "\<forall>b<length h3. b \<noteq> ?d \<longrightarrow> b \<noteq> length h \<longrightarrow> ?h' ! b = h3 ! b"
      using o2 o3 l2 by (simp add: other)
    show "map_of (?h' ! ?d) ''assignee'' = map_of (h3 ! ?d) ''assignee''"
      using k2 k3 by (simp add: hd)
  qed
  have R: "(map_of ?F ''reporter'' = None \<longrightarrow> py_get ?h' (PRef ?d) ''reporter'' = None) \<and>
     (\<forall>uv. map_of ?F ''reporter'' = Some uv \<longrightarrow>
        ((\<forall>x. uv \<noteq> PRef x) \<longrightarrow> py_get ?h' (PRef ?d) ''reporter'' = Some uv) \<and>
        (is_dict h uv \<longrightarrow>
           (\<exists>u hi hj. prefix h hi \<and> normalize_user_response hi uv = (Inr u, hj) \<and>
              py_get ?h' (PRef ?d) ''reporter'' = Some u \<and>
              (\<forall>x. u = PRef x \<longrightarrow> x < length hj \<and> x < length ?h' \<and> ?h' ! x = hj ! x))))"
  proof (rule surv [OF s2 l2 a2 e2 p3 _ d3])
    show "length h < ?d" by simp
    show "map_of (h3 ! ?d) ''reporter'' = map_of ?F ''reporter''"
    proof -
      from k1 have "map_of (h3 ! ?d) ''reporter'' = map_of (?h2 ! ?d) ''reporter''" by simp
      then show ?thesis unfolding F2 .
    qed
    show "length h4 \<le> length ?h'" using l3 len by simp
    show "?d < length ?h'" by (rule dl)
    show "\<forall>b<length h4. b \<noteq> ?d \<longrightarrow> b \<noteq> length h \<longrightarrow> ?h' ! b = h4 ! b"
      using o3 by (simp add: other)
    show "map_of (?h' ! ?d) ''reporter'' = map_of (h4 ! ?d) ''reporter''"
      using k3 by (simp add: hd)
  qed
  have C: "(map_of ?F ''creator'' = None \<longrightarrow> py_get ?h' (PRef ?d) ''creator'' = None) \<and>
     (\<forall>uv. map_of ?F ''creator'' = Some uv \<longrightarrow>
        ((\<forall>x. uv \<noteq> PRef x) \<longrightarrow> py_get ?h' (PRef ?d) ''creator'' = Some uv) \<and>
        (is_dict h uv \<longrightarrow>
           (\<exists>u hi hj. prefix h hi \<and> normalize_user_response hi uv = (Inr u, hj) \<and>
              py_get ?h' (PRef ?d) ''creator'' = Some u \<and>
              (\<forall>x. u = PRef x \<longrightarrow> x < length hj \<and> x < length ?h' \<and> ?h' ! x = hj ! x))))"
  proof (rule surv [OF s3 l3 a3 e3 p4 _ d4])
    show "length h < ?d" by simp
    show "map_of (h4 ! ?d) ''creator'' = map_of ?F ''creator''"
    proof -
      from k2 have "map_of (h4 ! ?d) ''creator'' = map_of (h3 ! ?d) ''creator''" by simp
      also from k1 have "\<dots> = map_of (?h2 ! ?d) ''creator''" by simp
      finally show ?thesis unfolding F2 .
    qed
    show "length h5 \<le> length ?h'" using len by simp
    show "?d < length ?h'" by (rule dl)
    show "\<forall>b<length h5. b \<noteq> ?d \<longrightarrow> b \<noteq> length h \<longrightarrow> ?h' ! b = h5 ! b"
      by (simp add: other)
    show "map_of (?h' ! ?d) ''creator'' = map_of (h5 ! ?d) ''creator''"
      by (simp add: hd)
  qed
  from A R C have users: "\<forall>k. k = ''assignee'' \<or> k = ''reporter'' \<or> k = ''creator'' \<longrightarrow>
        (map_of ?F k = None \<longrightarrow> py_get ?h' (PRef ?d) k = None) \<and>
        (\<forall>uv. map_of ?F k = Some uv \<longrightarrow>
           ((\<forall>x. uv \<noteq> PRef x) \<longrightarrow> py_get ?h' (PRef ?d) k = Some uv) \<and>
           (is_dict h uv \<longrightarrow>
              (\<exists>u hi hj. prefix h hi \<and> normalize_user_response hi uv = (Inr u, hj) \<and>
                 py_get ?h' (PRef ?d) k = Some u \<and>
                 (\<forall>x. u = PRef x \<longrightarrow> x < length hj \<and> x < length ?h' \<and> ?h' ! x = hj ! x))))"
    by (intro allI impI) (elim disjE; simp only:)
  show ?thesis
    apply (rule exI [of _ ?h'])
    apply (intro conjI)
          apply (rule eq)
         apply (rule p')
        apply (rule dl)
       apply (rule keys)
      apply (rule fld)
     apply (rule sub)
    apply (rule users)
    done
qed

lemma issue_no_fields_copy:
  assumes a: "a < length h" and ne: "h ! a \<noteq> []"
    and nf: "\<not> (\<exists>f. map_of (h ! a) ''fields'' = Some (PRef f) \<and> f < Suc (length h))"
  shows "normalize_issue_response h (PRef a) = (Inr (PRef (length h)), h @ [h ! a])"
proof (cases "map_of (h ! a) ''fields''")
  case None
  with a ne show ?thesis
    by (simp add: normalize_issue_response_def py_truthy_def heap_alloc_def dict_contains_def)
next
  case (Some fv)
  with nf have "\<not> is_dict (h @ [h ! a]) fv"
    by (cases fv) (auto simp: is_dict_def)
  with a ne Some show ?thesis
    by (simp add: normalize_issue_response_def py_truthy_def heap_alloc_def dict_contains_def
        dict_getitem_def)
qed

lemma issue_empty:
  "a < length h \<Longrightarrow> h ! a = [] \<Longrightarrow> normalize_issue_response h (PRef a) = (Inr (PRef a), h)"
  by (simp add: normalize_issue_response_def py_truthy_def)

lemma user_frame:
  assumes a: "a < length h"
  shows "\<exists>v h'. normalize_user_response h (PRef a) = (Inr v, h') \<and> prefix h h'"
proof (cases "h ! a = []")
  case True
  with a show ?thesis by (simp add: normalize_user_response_empty)
next
  case False
  with a show ?thesis by (simp add: normalize_user_response_closed)
qed

lemma item_truthy:
  "(map_of d k \<noteq> None \<and> py_truthy h (item d k)) \<longleftrightarrow>
   (\<exists>n. map_of d k = Some n \<and> py_truthy h n)"
  by (cases "map_of d k") (simp_all add: item_def)

lemma item_Some: "map_of d k \<noteq> None \<Longrightarrow> Some (item d k) = map_of d k"
  by (cases "map_of d k") (simp_all add: item_def)

lemma item_PNone:
  "(map_of d k = None \<or> item d k = PNone) \<longleftrightarrow> (map_of d k = None \<or> map_of d k = Some PNone)"
  by (cases "map_of d k") (simp_all add: item_def)

lemma user_items_accountId:
  assumes "map_of d ''accountId'' = None \<or> map_of d ''accountId'' = Some PNone"
  shows "map_of (user_items h d) ''accountId'' =
     (if \<exists>n. map_of d ''name'' = Some n \<and> py_truthy h n then map_of d ''name''
      else if \<exists>k. map_of d ''key'' = Some k \<and> py_truthy h k then map_of d ''key''
      else map_of d ''accountId'')"
proof -
  let ?d2 = "if map_of d ''name'' \<noteq> None \<and> py_truthy h (item d ''name'')
           then AList.update ''accountId'' (item d ''name'') d
           else if map_of d ''key'' \<noteq> None \<and> py_truthy h (item d ''key'')
           then AList.update ''accountId'' (item d ''key'') d
           else d"
  have acc: "map_of d ''accountId'' = None \<or> item d ''accountId'' = PNone"
    using assms by (simp only: item_PNone)
  have u: "user_items h d =
    (if map_of ?d2 ''emailAddress'' = None then AList.update ''emailAddress'' PNone ?d2 else ?d2)"
    unfolding user_items_def Let_def using acc by (simp only: if_True)
  have "map_of (user_items h d) ''accountId'' = map_of ?d2 ''accountId''"
    unfolding u by (simp add: update_conv' del: map_of_eq_None_iff not_None_eq)
  also have "\<dots> =
     (if map_of d ''name'' \<noteq> None \<and> py_truthy h (item d ''name'') then map_of d ''name''
      else if map_of d ''key'' \<noteq> None \<and> py_truthy h (item d ''key'') then map_of d ''key''
      else map_of d ''accountId'')"
    by (simp add: update_conv' item_Some del: map_of_eq_None_iff not_None_eq)
  finally show ?thesis by (simp only: item_truthy)
qed

lemma user_items_emailAddress:
  "map_of (user_items h d) ''emailAddress'' =
     (case map_of d ''emailAddress'' of None \<Rightarrow> Some PNone | Some e \<Rightarrow> Some e)"
proof -
  have k: "\<And>v d'. map_of (AList.update ''accountId'' v d') ''emailAddress'' = map_of d' ''emailAddress''"
    by (simp add: update_conv')
  show ?thesis
    by (cases "map_of d ''emailAddress''")
       (simp_all add: user_items_def Let_def k update_conv' del: map_of_eq_None_iff not_None_eq)
qed


text \<open>
  Claim C4. For a non-empty user dictionary the mapper returns a new dictionary. When
  the input has no \<open>accountId\<close>, or has \<open>None\<close> there, the result's \<open>accountId\<close> is the
  input's \<open>name\<close> if that key is present with a truthy value, else the input's \<open>key\<close> if
  that is present and truthy, else as in the input (absent, or \<open>None\<close>). Whatever the
  input's \<open>accountId\<close>, the result has the key \<open>emailAddress\<close>: the input's value if it
  has one, \<open>None\<close> if not.
\<close>

theorem normalize_user_response_identity:
  assumes "a < length h" and "h ! a \<noteq> []"
  shows "\<exists>h'. normalize_user_response h (PRef a) = (Inr (PRef (length h)), h') \<and>
     prefix h h' \<and> is_dict h' (PRef (length h)) \<and>
     (py_get h (PRef a) ''accountId'' = None \<or> py_get h (PRef a) ''accountId'' = Some PNone \<longrightarrow>
        py_get h' (PRef (length h)) ''accountId'' =
          (if \<exists>n. py_get h (PRef a) ''name'' = Some n \<and> py_truthy h n
           then py_get h (PRef a) ''name''
           else if \<exists>k. py_get h (PRef a) ''key'' = Some k \<and> py_truthy h k
           then py_get h (PRef a) ''key''
           else py_get h (PRef a) ''accountId'')) \<and>
     py_get h' (PRef (length h)) ''emailAddress'' =
       (case py_get h (PRef a) ''emailAddress'' of None \<Rightarrow> Some PNone | Some e \<Rightarrow> Some e)"
proof -
  let ?h' = "h @ [user_items h (h ! a)]"
  have eq: "normalize_user_response h (PRef a) = (Inr (PRef (length h)), ?h')"
    using assms by (rule normalize_user_response_closed)
  have g: "\<And>k. py_get h (PRef a) k = map_of (h ! a) k"
    using assms(1) by (simp add: py_get_def)
  have g': "\<And>k. py_get ?h' (PRef (length h)) k = map_of (user_items h (h ! a)) k"
    by (simp add: py_get_def)
  show ?thesis
    apply (rule exI [of _ ?h'])
    unfolding g g'
    using eq
    by (simp add: is_dict_def user_items_accountId user_items_emailAddress)
qed

theorem normalize_user_response_identity_witness:
  "(0::nat) < length example_heap \<and> example_heap ! 0 \<noteq> [] \<and>
   py_get example_heap (PRef 0) ''accountId'' = None \<and>
   py_get example_heap (PRef 0) ''emailAddress'' = None \<and>
   fst (normalize_user_response example_heap (PRef 0)) = Inr (PRef 5) \<and>
   py_get (snd (normalize_user_response example_heap (PRef 0))) (PRef 5) ''accountId'' =
     Some (PStr ''bob'') \<and>
   py_get (snd (normalize_user_response example_heap (PRef 0))) (PRef 5) ''emailAddress'' =
     Some PNone"
proof -
  have a: "(0::nat) < length example_heap" by (simp add: example_heap_def)
  have b: "example_heap ! 0 \<noteq> []" by (simp add: example_heap_def)
  have l: "length example_heap = 5" by (simp add: example_heap_def)
  have acc: "py_get example_heap (PRef 0) ''accountId'' = None"
    by (simp add: example_heap_def py_get_def)
  have em: "py_get example_heap (PRef 0) ''emailAddress'' = None"
    by (simp add: example_heap_def py_get_def)
  have nm: "py_get example_heap (PRef 0) ''name'' = Some (PStr ''bob'')"
    by (simp add: example_heap_def py_get_def)
  have tr: "py_truthy example_heap (PStr ''bob'')" by (simp add: py_truthy_def)
  from normalize_user_response_identity [OF a b] obtain h' where
    eq: "normalize_user_response example_heap (PRef 0) = (Inr (PRef (length example_heap)), h')"
    and id: "py_get example_heap (PRef 0) ''accountId'' = None \<or>
         py_get example_heap (PRef 0) ''accountId'' = Some PNone \<longrightarrow>
        py_get h' (PRef (length example_heap)) ''accountId'' =
          (if \<exists>n. py_get example_heap (PRef 0) ''name'' = Some n \<and> py_truthy example_heap n
           then py_get example_heap (PRef 0) ''name''
           else if \<exists>k. py_get example_heap (PRef 0) ''key'' = Some k \<and> py_truthy example_heap k
           then py_get example_heap (PRef 0) ''key''
           else py_get example_heap (PRef 0) ''accountId'')"
    and mail: "py_get h' (PRef (length example_heap)) ''emailAddress'' =
       (case py_get example_heap (PRef 0) ''emailAddress'' of
          None \<Rightarrow> Some PNone | Some e \<Rightarrow> Some e)"
    by (elim exE conjE)
  from id acc nm tr have "py_get h' (PRef 5) ''accountId'' = Some (PStr ''bob'')"
    by (simp add: l)
  moreover from mail em have "py_get h' (PRef 5) ''emailAddress'' = Some PNone"
    by (simp add: l)
  ultimately show ?thesis using a b acc em eq by (simp add: l)
qed

text \<open>
  Claim C9. Applied to a dictionary, each of the three response mappers returns, and the
  heap it leaves has the heap it was given as a prefix: every dictionary that existed
  before the call is, at the same address, the same dictionary afterwards, so neither
  the input nor anything nested in it is mutated.

  The issue mapper's result agrees with its input on every key but \<open>fields\<close>. When
  \<open>fields\<close> is absent or not a dictionary it is kept as it is. When \<open>fields\<close> is a
  dictionary, the result's \<open>fields\<close> is a new dictionary that agrees with it on every
  key but \<open>assignee\<close>, \<open>reporter\<close> and \<open>creator\<close>; such a key is kept when it is absent
  or its value is not a dictionary, and when its value is a dictionary the result holds
  what \<open>normalize_user_response\<close> returned for that value (in a heap \<open>hi\<close> that extends
  the input heap), and the dictionary returned is in the final heap as that call left it.
\<close>

theorem mappers_copy_on_write:
  assumes "is_dict h data"
  shows
    "(\<exists>v h'. normalize_issue_response h data = (Inr v, h') \<and> prefix h h' \<and> is_dict h' v \<and>
        (\<forall>k. k \<noteq> ''fields'' \<longrightarrow> py_get h' v k = py_get h data k) \<and>
        (py_get h data ''fields'' = None \<longrightarrow> py_get h' v ''fields'' = None) \<and>
        (\<forall>fv. py_get h data ''fields'' = Some fv \<longrightarrow>
           ((\<forall>x. fv \<noteq> PRef x) \<longrightarrow> py_get h' v ''fields'' = Some fv) \<and>
           (is_dict h fv \<longrightarrow>
              (\<exists>fv'. py_get h' v ''fields'' = Some fv' \<and> is_dict h' fv' \<and> \<not> is_dict h fv' \<and>
                 (\<forall>k. k \<noteq> ''assignee'' \<and> k \<noteq> ''reporter'' \<and> k \<noteq> ''creator'' \<longrightarrow>
                    py_get h' fv' k = py_get h fv k) \<and>
                 (\<forall>k. k = ''assignee'' \<or> k = ''reporter'' \<or> k = ''creator'' \<longrightarrow>
                    (py_get h fv k = None \<longrightarrow> py_get h' fv' k = None) \<and>
                    (\<forall>uv. py_get h fv k = Some uv \<longrightarrow>
                       ((\<forall>x. uv \<noteq> PRef x) \<longrightarrow> py_get h' fv' k = Some uv) \<and>
                       (is_dict h uv \<longrightarrow>
                          (\<exists>u hi hj. prefix h hi \<and>
                             normalize_user_response hi uv = (Inr u, hj) \<and>
                             py_get h' fv' k = Some u \<and>
                             (\<forall>x. u = PRef x \<longrightarrow>
                                x < length hj \<and> x < length h' \<and> h' ! x = hj ! x))))))))) \<and>
     (\<exists>v h'. normalize_user_response h data = (Inr v, h') \<and> prefix h h') \<and>
     (\<exists>v h'. normalize_comment_response h data = (Inr v, h') \<and> prefix h h')"
proof -
  from assms obtain a where data: "data = PRef a" and a: "a < length h"
    by (cases data) (auto simp: is_dict_def)
  have get: "\<And>k. py_get h (PRef a) k = map_of (h ! a) k"
    using a by (simp add: py_get_def)
  let ?issue = "\<lambda>v h'. normalize_issue_response h (PRef a) = (Inr v, h') \<and> prefix h h' \<and> is_dict h' v \<and>
        (\<forall>k. k \<noteq> ''fields'' \<longrightarrow> py_get h' v k = py_get h (PRef a) k) \<and>
        (py_get h (PRef a) ''fields'' = None \<longrightarrow> py_get h' v ''fields'' = None) \<and>
        (\<forall>fv. py_get h (PRef a) ''fields'' = Some fv \<longrightarrow>
           ((\<forall>x. fv \<noteq> PRef x) \<longrightarrow> py_get h' v ''fields'' = Some fv) \<and>
           (is_dict h fv \<longrightarrow>
              (\<exists>fv'. py_get h' v ''fields'' = Some fv' \<and> is_dict h' fv' \<and> \<not> is_dict h fv' \<and>
                 (\<forall>k. k \<noteq> ''assignee'' \<and> k \<noteq> ''reporter'' \<and> k \<noteq> ''creator'' \<longrightarrow>
                    py_get h' fv' k = py_get h fv k) \<and>
                 (\<forall>k. k = ''assignee'' \<or> k = ''reporter'' \<or> k = ''creator'' \<longrightarrow>
                    (py_get h fv k = None \<longrightarrow> py_get h' fv' k = None) \<and>
                    (\<forall>uv. py_get h fv k = Some uv \<longrightarrow>
                       ((\<forall>x. uv \<noteq> PRef x) \<longrightarrow> py_get h' fv' k = Some uv) \<and>
                       (is_dict h uv \<longrightarrow>
                          (\<exists>u hi hj. prefix h hi \<and>
                             normalize_user_response hi uv = (Inr u, hj) \<and>
                             py_get h' fv' k = Some u \<and>
                             (\<forall>x. u = PRef x \<longrightarrow>
                                x < length hj \<and> x < length h' \<and> h' ! x = hj ! x))))))))"
  have issue: "\<exists>v h'. ?issue v h'"
  proof (cases "h ! a = []")
    case True
    have I: "?issue (PRef a) h"
      using a True by (simp add: issue_empty is_dict_def py_get_def)
    show ?thesis by (rule exI [of _ "PRef a"], rule exI [of _ h], rule I)
  next
    case False
    show ?thesis
    proof (cases "\<exists>f. map_of (h ! a) ''fields'' = Some (PRef f) \<and> f < Suc (length h)")
      case nf: False
      have eq: "normalize_issue_response h (PRef a) = (Inr (PRef (length h)), h @ [h ! a])"
        using a False nf by (rule issue_no_fields_copy)
      have g': "\<And>k. py_get (h @ [h ! a]) (PRef (length h)) k = map_of (h ! a) k"
        by (simp add: py_get_def)
      have nd: "\<And>fv. map_of (h ! a) ''fields'' = Some fv \<Longrightarrow> \<not> is_dict h fv"
      proof
        fix fv assume "map_of (h ! a) ''fields'' = Some fv" "is_dict h fv"
        with nf show False by (cases fv) (auto simp: is_dict_def)
      qed
      have d: "is_dict (h @ [h ! a]) (PRef (length h))" by (simp add: is_dict_def)
      have I: "?issue (PRef (length h)) (h @ [h ! a])"
      proof (intro conjI allI impI)
        show "normalize_issue_response h (PRef a) = (Inr (PRef (length h)), h @ [h ! a])"
          by (rule eq)
        show "prefix h (h @ [h ! a])" by simp
        show "is_dict (h @ [h ! a]) (PRef (length h))" by (rule d)
      next
        fix k show "py_get (h @ [h ! a]) (PRef (length h)) k = py_get h (PRef a) k"
          by (simp only: get g')
      next
        assume "py_get h (PRef a) ''fields'' = None"
        then show "py_get (h @ [h ! a]) (PRef (length h)) ''fields'' = None"
          by (simp only: get g')
      next
        fix fv assume "py_get h (PRef a) ''fields'' = Some fv"
        then show "py_get (h @ [h ! a]) (PRef (length h)) ''fields'' = Some fv"
          by (simp only: get g')
      next
        fix fv assume "py_get h (PRef a) ''fields'' = Some fv" and "is_dict h fv"
        then have "map_of (h ! a) ''fields'' = Some fv" and "is_dict h fv"
          by (simp_all only: get)
        then have False using nd by blast
        then show "\<exists>fv'. py_get (h @ [h ! a]) (PRef (length h)) ''fields'' = Some fv' \<and>
           is_dict (h @ [h ! a]) fv' \<and> \<not> is_dict h fv' \<and>
           (\<forall>k. k \<noteq> ''assignee'' \<and> k \<noteq> ''reporter'' \<and> k \<noteq> ''creator'' \<longrightarrow>
              py_get (h @ [h ! a]) fv' k = py_get h fv k) \<and>
           (\<forall>k. k = ''assignee'' \<or> k = ''reporter'' \<or> k = ''creator'' \<longrightarrow>
              (py_get h fv k = None \<longrightarrow> py_get (h @ [h ! a]) fv' k = None) \<and>
              (\<forall>uv. py_get h fv k = Some uv \<longrightarrow>
                 ((\<forall>x. uv \<noteq> PRef x) \<longrightarrow> py_get (h @ [h ! a]) fv' k = Some uv) \<and>
                 (is_dict h uv \<longrightarrow>
                    (\<exists>u hi hj. prefix h hi \<and>
                       normalize_user_response hi uv = (Inr u, hj) \<and>
                       py_get (h @ [h ! a]) fv' k = Some u \<and>
                       (\<forall>x. u = PRef x \<longrightarrow>
                          x < length hj \<and> x < length (h @ [h ! a]) \<and>
                          (h @ [h ! a]) ! x = hj ! x)))))" ..
      qed
      show ?thesis
        by (rule exI [of _ "PRef (length h)"], rule exI [of _ "h @ [h ! a]"], rule I)
    next
      case True
      then obtain f where fv: "map_of (h ! a) ''fields'' = Some (PRef f)"
        and f: "f < Suc (length h)" by blast
      from issue_fields_copy [OF a False fv f] obtain h' where
        eq: "normalize_issue_response h (PRef a) = (Inr (PRef (length h)), h')" and
        p: "prefix h h'" and l: "Suc (length h) < length h'" and
        keys: "\<forall>k. k \<noteq> ''fields'' \<longrightarrow> py_get h' (PRef (length h)) k = map_of (h ! a) k" and
        fld: "py_get h' (PRef (length h)) ''fields'' = Some (PRef (Suc (length h)))" and
        sub: "\<forall>k. k \<noteq> ''assignee'' \<and> k \<noteq> ''reporter'' \<and> k \<noteq> ''creator'' \<longrightarrow>
          py_get h' (PRef (Suc (length h))) k = map_of ((h @ [h ! a]) ! f) k" and
        users: "\<forall>k. k = ''assignee'' \<or> k = ''reporter'' \<or> k = ''creator'' \<longrightarrow>
          (map_of ((h @ [h ! a]) ! f) k = None \<longrightarrow> py_get h' (PRef (Suc (length h))) k = None) \<and>
          (\<forall>uv. map_of ((h @ [h ! a]) ! f) k = Some uv \<longrightarrow>
             ((\<forall>x. uv \<noteq> PRef x) \<longrightarrow> py_get h' (PRef (Suc (length h))) k = Some uv) \<and>
             (is_dict h uv \<longrightarrow>
                (\<exists>u hi hj. prefix h hi \<and> normalize_user_response hi uv = (Inr u, hj) \<and>
                   py_get h' (PRef (Suc (length h))) k = Some u \<and>
                   (\<forall>x. u = PRef x \<longrightarrow> x < length hj \<and> x < length h' \<and> h' ! x = hj ! x))))"
        by (elim exE conjE)
      have I: "?issue (PRef (length h)) h'"
      proof (intro conjI allI impI)
        show "normalize_issue_response h (PRef a) = (Inr (PRef (length h)), h')" by (rule eq)
        show "prefix h h'" by (rule p)
        show "is_dict h' (PRef (length h))" using l by (simp add: is_dict_def)
      next
        fix k assume "k \<noteq> ''fields''"
        with keys show "py_get h' (PRef (length h)) k = py_get h (PRef a) k"
          by (simp add: get)
      next
        assume "py_get h (PRef a) ''fields'' = None"
        with fv show "py_get h' (PRef (length h)) ''fields'' = None" by (simp add: get)
      next
        fix fv' assume "py_get h (PRef a) ''fields'' = Some fv'" "\<forall>x. fv' \<noteq> PRef x"
        with fv show "py_get h' (PRef (length h)) ''fields'' = Some fv'" by (auto simp: get)
      next
        fix fv' assume g: "py_get h (PRef a) ''fields'' = Some fv'" and d: "is_dict h fv'"
        from g fv have fv': "fv' = PRef f" by (simp add: get)
        with d have fh: "f < length h" by (simp add: is_dict_def)
        then have F: "(h @ [h ! a]) ! f = h ! f" by (simp add: nth_append)
        have gf: "\<And>k. py_get h fv' k = map_of (h ! f) k"
          using fh fv' by (simp add: py_get_def)
        show "\<exists>fv''. py_get h' (PRef (length h)) ''fields'' = Some fv''
           \<and> is_dict h' fv'' \<and> \<not> is_dict h fv'' \<and>
           (\<forall>k. k \<noteq> ''assignee'' \<and> k \<noteq> ''reporter'' \<and> k \<noteq> ''creator'' \<longrightarrow>
              py_get h' fv'' k = py_get h fv' k) \<and>
           (\<forall>k. k = ''assignee'' \<or> k = ''reporter'' \<or> k = ''creator'' \<longrightarrow>
              (py_get h fv' k = None \<longrightarrow> py_get h' fv'' k = None) \<and>
              (\<forall>uv. py_get h fv' k = Some uv \<longrightarrow>
                 ((\<forall>x. uv \<noteq> PRef x) \<longrightarrow> py_get h' fv'' k = Some uv) \<and>
                 (is_dict h uv \<longrightarrow>
                    (\<exists>u hi hj. prefix h hi \<and>
                       normalize_user_response hi uv = (Inr u, hj) \<and>
                       py_get h' fv'' k = Some u \<and>
                       (\<forall>x. u = PRef x \<longrightarrow>
                          x < length hj \<and> x < length h' \<and> h' ! x = hj ! x)))))"
          apply (rule exI [of _ "PRef (Suc (length h))"])
          unfolding gf
          using fld l sub users unfolding F
          by (simp add: is_dict_def)
      qed
      show ?thesis
        by (rule exI [of _ "PRef (length h)"], rule exI [of _ h'], rule I)
    qed
  qed
  have cf: "\<exists>v h'. normalize_comment_response h (PRef a) = (Inr v, h') \<and> prefix h h'"
    using comment_frame [OF a] by (elim exE conjE) (intro exI conjI)
  show ?thesis
    unfolding data by (intro conjI) (rule issue, rule user_frame [OF a], rule cf)
qed


theorem mappers_copy_on_write_witness:
  "is_dict example_heap (PRef 2) \<and>
   normalize_issue_response example_heap (PRef 2) =
     (Inr (PRef 5),
      example_heap @
      [[(''key'', PStr ''A-1''), (''fields'', PRef 6)],
       [(''assignee'', PRef 7), (''reporter'', PNone), (''summary'', PStr ''x'')],
       [(''name'', PStr ''bob''), (''displayName'', PStr ''Bob''),
        (''accountId'', PStr ''bob''), (''emailAddress'', PNone)]]) \<and>
   prefix example_heap (snd (normalize_issue_response example_heap (PRef 2))) \<and>
   prefix example_heap (snd (normalize_user_response example_heap (PRef 2))) \<and>
   prefix example_heap (snd (normalize_comment_response example_heap (PRef 2)))"
proof -
  have d: "is_dict example_heap (PRef 2)" by (simp add: is_dict_def example_heap_def)
  have ev: "normalize_issue_response example_heap (PRef 2) =
     (Inr (PRef 5),
      example_heap @
      [[(''key'', PStr ''A-1''), (''fields'', PRef 6)],
       [(''assignee'', PRef 7), (''reporter'', PNone), (''summary'', PStr ''x'')],
       [(''name'', PStr ''bob''), (''displayName'', PStr ''Bob''),
        (''accountId'', PStr ''bob''), (''emailAddress'', PNone)]])"
    by code_simp
  from mappers_copy_on_write [OF d] obtain v1 h1 v2 h2 v3 h3 where
    "normalize_issue_response example_heap (PRef 2) = (Inr v1, h1)" "prefix example_heap h1"
    "normalize_user_response example_heap (PRef 2) = (Inr v2, h2)" "prefix example_heap h2"
    "normalize_comment_response example_heap (PRef 2) = (Inr v3, h3)" "prefix example_heap h3"
    by (elim exE conjE)
  then show ?thesis using d ev by simp
qed


section \<open>Verification: configuration and TLS\<close>

text \<open>
  Claim C5. On a Server/DC deployment (a URL is set and is not a Cloud URL, the mode is
  not \<open>server_6x\<close>) with a personal token and an OAuth bundle both present,
  \<open>from_env\<close> returns a configuration whose \<open>auth_type\<close> is \<open>pat\<close>. On a Cloud
  deployment without OAuth bundle and without username it raises a \<open>ValueError\<close>.
\<close>

theorem from_env_auth_type:
  "(str_truthy (env ''JIRA_URL'') \<and> \<not> is_atlassian_cloud_url ext (env ''JIRA_URL'') \<and>
    str_lower (getenv_default env ''JIRA_MODE'' ''cloud'') \<noteq> ''server_6x'' \<and>
    str_truthy (env ''JIRA_PERSONAL_TOKEN'') \<and> get_oauth_config_from_env ext \<noteq> None
    \<longrightarrow> (\<exists>c. from_env env ext = Inr c \<and> cfg_auth_type c = ''pat'')) \<and>
   (is_atlassian_cloud_url ext (env ''JIRA_URL'') \<and>
    str_lower (getenv_default env ''JIRA_MODE'' ''cloud'') \<noteq> ''server_6x'' \<and>
    get_oauth_config_from_env ext = None \<and> \<not> str_truthy (env ''JIRA_USERNAME'')
    \<longrightarrow> (\<exists>msg. from_env env ext = Inl (ValueError msg)))"
  by (simp add: from_env_def Let_def)

theorem from_env_auth_type_witness:
  "str_truthy (server_env ''JIRA_URL'') \<and>
   \<not> is_atlassian_cloud_url (example_helpers (Some \<lparr>cloud_id = Some ''c1''\<rparr>)) (server_env ''JIRA_URL'') \<and>
   str_lower (getenv_default server_env ''JIRA_MODE'' ''cloud'') \<noteq> ''server_6x'' \<and>
   str_truthy (server_env ''JIRA_PERSONAL_TOKEN'') \<and>
   (\<exists>c. from_env server_env (example_helpers (Some \<lparr>cloud_id = Some ''c1''\<rparr>)) = Inr c \<and>
        cfg_auth_type c = ''pat'') \<and>
   is_atlassian_cloud_url (example_helpers None) (cloud_env ''JIRA_URL'') \<and>
   str_lower (getenv_default cloud_env ''JIRA_MODE'' ''cloud'') \<noteq> ''server_6x'' \<and>
   \<not> str_truthy (cloud_env ''JIRA_USERNAME'') \<and>
   (\<exists>msg. from_env cloud_env (example_helpers None) = Inl (ValueError msg))"
proof -
  let ?ext = "example_helpers (Some \<lparr>cloud_id = Some ''c1''\<rparr>)"
  have a: "str_truthy (server_env ''JIRA_URL'')" by (simp add: server_env_def str_truthy_def)
  have b: "\<not> is_atlassian_cloud_url ?ext (server_env ''JIRA_URL'')"
    by (simp add: server_env_def example_helpers_def cloud_suffix_def suffix_def)
  have c: "str_lower (getenv_default server_env ''JIRA_MODE'' ''cloud'') \<noteq> ''server_6x''"
    by code_simp
  have d: "str_truthy (server_env ''JIRA_PERSONAL_TOKEN'')"
    by (simp add: server_env_def str_truthy_def)
  have e: "get_oauth_config_from_env ?ext \<noteq> None" by (simp add: example_helpers_def)
  have f: "is_atlassian_cloud_url (example_helpers None) (cloud_env ''JIRA_URL'')"
    by (simp add: cloud_env_def example_helpers_def cloud_suffix_def suffix_def)
  have g: "str_lower (getenv_default cloud_env ''JIRA_MODE'' ''cloud'') \<noteq> ''server_6x''"
    by code_simp
  have h: "get_oauth_config_from_env (example_helpers None) = None"
    by (simp add: example_helpers_def)
  have i: "\<not> str_truthy (cloud_env ''JIRA_USERNAME'')"
    by (simp add: cloud_env_def str_truthy_def)
  from from_env_auth_type [of server_env ?ext] a b c d e
  have 1: "\<exists>c. from_env server_env ?ext = Inr c \<and> cfg_auth_type c = ''pat''" by blast
  from from_env_auth_type [of cloud_env "example_helpers None"] f g h i
  have 2: "\<exists>msg. from_env cloud_env (example_helpers None) = Inl (ValueError msg)" by blast
  from a b c d 1 f g i 2 show ?thesis by blast
qed

text \<open>
  Claim C7. With a client certificate and a client key given as paths and a non-empty
  key password, \<open>configure_ssl_verification\<close> raises a \<open>ValueError\<close>, whatever the
  other arguments, the environment and the file system are. The session is left as it
  was: no certificate has been attached. The function has no access to the network, so
  nothing has been sent when it raises.
\<close>

theorem configure_ssl_rejects_encrypted_key:
  assumes "client_cert = Some cert" and "client_key = Some key"
    and "client_key_password = Some pw" and "pw \<noteq> []"
  shows "\<exists>msg. configure_ssl_verification env path_exists netloc service_name u s ssl_verify
           client_cert client_key client_key_password ca_file = (Inl (ValueError msg), s)"
  using assms by (simp add: configure_ssl_verification_def str_truthy_def)

theorem configure_ssl_rejects_encrypted_key_witness:
  "(''s3cret'' :: string) \<noteq> [] \<and>
   configure_ssl_verification (\<lambda>_. None) (\<lambda>_. True) (\<lambda>_. ''jira.corp.example'') ''Jira''
     ''https://jira.corp.example'' example_session True
     (Some ''/etc/ssl/client.pem'') (Some ''/etc/ssl/client.key'') (Some ''s3cret'') None =
   (Inl (ValueError
      ''Jira client certificate authentication with encrypted private keys is not supported.''),
    example_session)"
proof -
  have ne: "(''s3cret'' :: string) \<noteq> []" by simp
  from configure_ssl_rejects_encrypted_key [OF refl refl refl ne] obtain msg where
    m: "configure_ssl_verification (\<lambda>_. None) (\<lambda>_. True) (\<lambda>_. ''jira.corp.example'') ''Jira''
     ''https://jira.corp.example'' example_session True
     (Some ''/etc/ssl/client.pem'') (Some ''/etc/ssl/client.key'') (Some ''s3cret'') None =
     (Inl (ValueError msg), example_session)" by blast
  have "configure_ssl_verification (\<lambda>_. None) (\<lambda>_. True) (\<lambda>_. ''jira.corp.example'') ''Jira''
     ''https://jira.corp.example'' example_session True
     (Some ''/etc/ssl/client.pem'') (Some ''/etc/ssl/client.key'') (Some ''s3cret'') None =
   (Inl (ValueError
      ''Jira client certificate authentication with encrypted private keys is not supported.''),
    example_session)"
    by (simp add: configure_ssl_verification_def str_truthy_def)
  with ne m show ?thesis by simp
qed


section \<open>Verification: the cookie session\<close>

text \<open>
  Claim C1, as the code has it. \<open>_logout\<close> never raises. With a cached token and
  cookie authentication it sends one \<open>DELETE\<close> to the session endpoint with the cached
  token; when that call returns a response, whatever its status, the client is left
  without cached token; when the call raises, the client is left as it was.
\<close>

lemma http_call_trace: "w_trace (snd (http_call w ev)) = w_trace w @ [ev]"
  by (simp add: http_call_def Let_def split: list.splits outcome.splits)

lemma http_call_cases:
  obtains e w1 where "http_call w ev = (Inl e, w1)" | r w1 where "http_call w ev = (Inr r, w1)"
  by (cases "http_call w ev") (metis sum.exhaust_sel)

theorem logout_best_effort:
  "fst (logout c w) = Inr () \<and>
   (str_truthy (cookie_session c) \<and> cfg_jira_auth (config c) = ''cookie'' \<longrightarrow>
      w_trace (snd (snd (logout c w))) =
        w_trace w @ [HttpDelete (url_str (cfg_url (config c)) @ ''/rest/auth/1/session'')
                       [(''JSESSIONID'', the (cookie_session c))]] \<and>
      ((\<exists>response rest. w_http w = Returns response # rest) \<longrightarrow>
         cookie_session (fst (snd (logout c w))) = None) \<and>
      ((\<forall>response rest. w_http w \<noteq> Returns response # rest) \<longrightarrow>
         fst (snd (logout c w)) = c))"
  by (auto simp: logout_def http_call_def Let_def split: list.splits outcome.splits)

theorem logout_best_effort_witness:
  "str_truthy (cookie_session example_client) \<and>
   cfg_jira_auth (config example_client) = ''cookie'' \<and>
   fst (logout example_client (example_world [Returns (HttpResponse 500 [] ''oops'')] [])) = Inr () \<and>
   w_trace (snd (snd (logout example_client
      (example_world [Returns (HttpResponse 500 [] ''oops'')] [])))) =
     [HttpDelete ''https://jira.corp.example/rest/auth/1/session'' [(''JSESSIONID'', ''abc'')]] \<and>
   cookie_session (fst (snd (logout example_client
      (example_world [Returns (HttpResponse 500 [] ''oops'')] [])))) = None"
proof -
  let ?w = "example_world [Returns (HttpResponse 500 [] ''oops'')] []"
  have a: "str_truthy (cookie_session example_client)"
    by (simp add: example_client_def str_truthy_def)
  have b: "cfg_jira_auth (config example_client) = ''cookie''"
    by (simp add: example_client_def example_config_def)
  have c: "\<exists>response rest. w_http ?w = Returns response # rest"
    by (simp add: example_world_def)
  have u: "url_str (cfg_url (config example_client)) @ ''/rest/auth/1/session'' =
           ''https://jira.corp.example/rest/auth/1/session''"
    by (simp add: example_client_def example_config_def url_str_def)
  have t: "the (cookie_session example_client) = ''abc''" by (simp add: example_client_def)
  have e: "w_trace ?w = []" by (simp add: example_world_def)
  from logout_best_effort [of example_client ?w] a b c
  show ?thesis unfolding u t e by simp
qed

text \<open>
  The claim as it was stated fails when the \<open>DELETE\<close> raises: the assignment that
  clears the token stands behind the call inside the \<open>try\<close>, so it is skipped and the
  token stays cached.
\<close>

theorem logout_counterexample:
  "str_truthy (cookie_session example_client) \<and>
   cfg_jira_auth (config example_client) = ''cookie'' \<and>
   fst (logout example_client (example_world [Raises RequestException] [])) = Inr () \<and>
   cookie_session (fst (snd (logout example_client
      (example_world [Raises RequestException] [])))) = Some ''abc''"
  by (simp add: logout_def http_call_def example_client_def example_config_def
      example_world_def str_truthy_def)








section \<open>Verification: paged requests\<close>

subsection \<open>One iteration and the whole loop\<close>

lemma loop_step_last:
  assumes "w_api w = Returns (ReplyObject d) # rest" and "map_of d ''nextPageToken'' = None"
  shows "get_paged_loop m p ab cd acc w =
     (Inr (acc @ [PRef (length (w_heap w))]),
      w\<lparr>w_trace := w_trace w @ [paged_event m p (dict_items (w_heap w) cd) ab],
        w_api := rest, w_heap := w_heap w @ [d]\<rparr>)"
  using assms
  by (subst get_paged_loop.simps)
     (simp add: api_call_def Let_def paged_event_def dict_contains_def)

lemma loop_step_more:
  assumes "w_api w = Returns (ReplyObject d) # rest" and "map_of d ''nextPageToken'' \<noteq> None"
    and "ca < length (w_heap w)"
  shows "get_paged_loop m p ab (PRef ca) acc w =
     get_paged_loop m p ab (PRef ca) (acc @ [PRef (length (w_heap w))])
       (w\<lparr>w_trace := w_trace w @ [paged_event m p (w_heap w ! ca) ab],
          w_api := rest,
          w_heap := (w_heap w @ [d])
             [ca := AList.update ''nextPageToken'' (item d ''nextPageToken'') (w_heap w ! ca)]\<rparr>)"
  using assms
  by (subst get_paged_loop.simps)
     (simp add: api_call_def Let_def paged_event_def dict_contains_def dict_getitem_def
        dict_setitem_def dict_items_def item_def nth_append del: not_None_eq)

lemma loop_step_other:
  assumes "w_api w = Returns (ReplyOther v) # rest" and "\<forall>x. v \<noteq> PRef x"
  shows "get_paged_loop m p ab cd acc w =
     (Inl (ValueError ''API result is not a dictionary''),
      w\<lparr>w_trace := w_trace w @ [paged_event m p (dict_items (w_heap w) cd) ab],
        w_api := rest\<rparr>)"
  using assms
  by (subst get_paged_loop.simps)
     (cases v; simp add: api_call_def Let_def paged_event_def)


lemma loop_pages:
  assumes "rs \<noteq> []" and "\<forall>d\<in>set (butlast rs). map_of d ''nextPageToken'' \<noteq> None"
    and "map_of (last rs) ''nextPageToken'' = None"
    and "w_api w = map (\<lambda>d. Returns (ReplyObject d)) rs @ rest"
    and "ca < length (w_heap w)"
  shows "\<exists>w' evs.
      get_paged_loop m p ab (PRef ca) acc w =
        (Inr (acc @ map PRef [length (w_heap w) ..< length (w_heap w) + length rs]), w') \<and>
      w_api w' = rest \<and>
      length (w_heap w') = length (w_heap w) + length rs \<and>
      (\<forall>i<length rs. w_heap w' ! (length (w_heap w) + i) = rs ! i) \<and>
      (\<forall>b<length (w_heap w). b \<noteq> ca \<longrightarrow> w_heap w' ! b = w_heap w ! b) \<and>
      w_heap w' ! ca =
        (if length rs = 1 then w_heap w ! ca
         else AList.update ''nextPageToken'' (item (rs ! (length rs - 2)) ''nextPageToken'')
                (w_heap w ! ca)) \<and>
      w_trace w' = w_trace w @ evs \<and> length evs = length rs \<and>
      evs ! 0 = paged_event m p (w_heap w ! ca) ab \<and>
      (\<forall>i. Suc i < length rs \<longrightarrow>
         (\<exists>items. evs ! Suc i = paged_event m p items ab \<and>
            map_of items ''nextPageToken'' = Some (item (rs ! i) ''nextPageToken'')))"
  using assms
proof (induction rs arbitrary: w acc)
  case Nil
  then show ?case by simp
next
  case (Cons d rs')
  let ?h = "w_heap w"
  let ?ev = "paged_event m p (?h ! ca) ab"
  show ?case
  proof (cases "rs' = []")
    case True
    with Cons.prems have api: "w_api w = Returns (ReplyObject d) # rest"
      and nt: "map_of d ''nextPageToken'' = None" by simp_all
    have di: "dict_items ?h (PRef ca) = ?h ! ca"
      using Cons.prems(5) by (simp add: dict_items_def)
    let ?w' = "w\<lparr>w_trace := w_trace w @ [?ev], w_api := rest, w_heap := ?h @ [d]\<rparr>"
    have eq: "get_paged_loop m p ab (PRef ca) acc w = (Inr (acc @ [PRef (length ?h)]), ?w')"
      using loop_step_last [OF api nt, of m p ab "PRef ca" acc] unfolding di .
    show ?thesis
      apply (rule exI [of _ ?w'], rule exI [of _ "[?ev]"])
      using eq True Cons.prems(5) by (simp add: nth_append)
  next
    case False
    then obtain d' rs'' where rs': "rs' = d' # rs''" by (cases rs') auto
    from Cons.prems(4) have api: "w_api w = Returns (ReplyObject d) #
        (map (\<lambda>d. Returns (ReplyObject d)) rs' @ rest)" by simp
    from Cons.prems(2) rs' have t: "map_of d ''nextPageToken'' \<noteq> None" by simp
    let ?tv = "item d ''nextPageToken''"
    let ?w2 = "w\<lparr>w_trace := w_trace w @ [?ev],
          w_api := map (\<lambda>d. Returns (ReplyObject d)) rs' @ rest,
          w_heap := (?h @ [d]) [ca := AList.update ''nextPageToken'' ?tv (?h ! ca)]\<rparr>"
    have step: "get_paged_loop m p ab (PRef ca) acc w =
        get_paged_loop m p ab (PRef ca) (acc @ [PRef (length ?h)]) ?w2"
      using api t Cons.prems(5) by (rule loop_step_more)
    have p2: "\<forall>d\<in>set (butlast rs'). map_of d ''nextPageToken'' \<noteq> None"
      using Cons.prems(2) False by simp
    have p3: "map_of (last rs') ''nextPageToken'' = None"
      using Cons.prems(3) False by simp
    have p4: "w_api ?w2 = map (\<lambda>d. Returns (ReplyObject d)) rs' @ rest" by simp
    have p5: "ca < length (w_heap ?w2)" using Cons.prems(5) by simp
    from Cons.IH [OF False p2 p3 p4 p5, of "acc @ [PRef (length ?h)]"]
    obtain w' evs where
      eq: "get_paged_loop m p ab (PRef ca) (acc @ [PRef (length ?h)]) ?w2 =
        (Inr ((acc @ [PRef (length ?h)]) @
              map PRef [length (w_heap ?w2) ..< length (w_heap ?w2) + length rs']), w')" and
      a': "w_api w' = rest" and
      l': "length (w_heap w') = length (w_heap ?w2) + length rs'" and
      pg: "\<forall>i<length rs'. w_heap w' ! (length (w_heap ?w2) + i) = rs' ! i" and
      fr: "\<forall>b<length (w_heap ?w2). b \<noteq> ca \<longrightarrow> w_heap w' ! b = w_heap ?w2 ! b" and
      cc: "w_heap w' ! ca =
        (if length rs' = 1 then w_heap ?w2 ! ca
         else AList.update ''nextPageToken'' (item (rs' ! (length rs' - 2)) ''nextPageToken'')
                (w_heap ?w2 ! ca))" and
      tr: "w_trace w' = w_trace ?w2 @ evs" and le: "length evs = length rs'" and
      e0: "evs ! 0 = paged_event m p (w_heap ?w2 ! ca) ab" and
      es: "\<forall>i. Suc i < length rs' \<longrightarrow>
         (\<exists>items. evs ! Suc i = paged_event m p items ab \<and>
            map_of items ''nextPageToken'' = Some (item (rs' ! i) ''nextPageToken''))"
      by blast
    have l2: "length (w_heap ?w2) = Suc (length ?h)" by simp
    have c2: "w_heap ?w2 ! ca = AList.update ''nextPageToken'' ?tv (?h ! ca)"
      using Cons.prems(5) by (simp add: nth_append)
    have n2: "w_heap ?w2 ! length ?h = d"
      using Cons.prems(5) by simp
    have o2: "\<And>b. b < length ?h \<Longrightarrow> b \<noteq> ca \<Longrightarrow> w_heap ?w2 ! b = ?h ! b"
      by (simp add: nth_append)
    have res: "(acc @ [PRef (length ?h)]) @
              map PRef [length (w_heap ?w2) ..< length (w_heap ?w2) + length rs'] =
          acc @ map PRef [length ?h ..< length ?h + length (d # rs')]"
    proof -
      have u: "[length ?h ..< length ?h + length (d # rs')] =
            length ?h # [Suc (length ?h) ..< length ?h + length (d # rs')]"
        by (rule upt_conv_Cons) simp
      have v: "length ?h + length (d # rs') = Suc (length ?h) + length rs'" by simp
      show ?thesis unfolding l2 u unfolding v by simp
    qed
    have G1: "get_paged_loop m p ab (PRef ca) acc w =
        (Inr (acc @ map PRef [length ?h ..< length ?h + length (d # rs')]), w')"
      using step eq res by simp
    have G3: "length (w_heap w') = length ?h + length (d # rs')"
      using l' l2 by simp
    have G4: "\<forall>i<length (d # rs'). w_heap w' ! (length ?h + i) = (d # rs') ! i"
    proof (intro allI impI)
      fix i assume i: "i < length (d # rs')"
      show "w_heap w' ! (length ?h + i) = (d # rs') ! i"
      proof (cases i)
        case 0
        have "w_heap w' ! length ?h = w_heap ?w2 ! length ?h"
          using fr Cons.prems(5) l2 by (metis lessI less_irrefl_nat)
        with n2 0 show ?thesis by simp
      next
        case (Suc j)
        with i have "j < length rs'" by simp
        with pg have "w_heap w' ! (length (w_heap ?w2) + j) = rs' ! j" by blast
        with Suc l2 show ?thesis by simp
      qed
    qed
    have G5: "\<forall>b<length ?h. b \<noteq> ca \<longrightarrow> w_heap w' ! b = ?h ! b"
    proof (intro allI impI)
      fix b assume b: "b < length ?h" "b \<noteq> ca"
      then have "w_heap w' ! b = w_heap ?w2 ! b" using fr l2 by simp
      with o2 b show "w_heap w' ! b = ?h ! b" by simp
    qed
    have G6: "w_heap w' ! ca =
        (if length (d # rs') = 1 then ?h ! ca
         else AList.update ''nextPageToken''
                (item ((d # rs') ! (length (d # rs') - 2)) ''nextPageToken'') (?h ! ca))"
    proof (cases "length rs' = 1")
      case True
      with cc c2 show ?thesis by simp
    next
      case ne: False
      with False have "2 \<le> length rs'"
        by (cases rs') (auto simp: Suc_le_eq)
      then have "(d # rs') ! (length (d # rs') - 2) = rs' ! (length rs' - 2)"
        by (simp add: nth_Cons' numeral_2_eq_2)
      with cc c2 ne False show ?thesis by simp
    qed
    have G7: "w_trace w' = w_trace w @ (?ev # evs)" using tr by simp
    have G9: "(?ev # evs) ! 0 = ?ev" by simp
    have G10: "\<forall>i. Suc i < length (d # rs') \<longrightarrow>
         (\<exists>items. (?ev # evs) ! Suc i = paged_event m p items ab \<and>
            map_of items ''nextPageToken'' = Some (item ((d # rs') ! i) ''nextPageToken''))"
    proof (intro allI impI)
      fix i assume i: "Suc i < length (d # rs')"
      show "\<exists>items. (?ev # evs) ! Suc i = paged_event m p items ab \<and>
            map_of items ''nextPageToken'' = Some (item ((d # rs') ! i) ''nextPageToken'')"
      proof (cases i)
        case 0
        have "map_of (AList.update ''nextPageToken'' ?tv (?h ! ca)) ''nextPageToken'' = Some ?tv"
          by (simp add: update_conv')
        with e0 c2 0 show ?thesis by auto
      next
        case (Suc j)
        with i have "Suc j < length rs'" by simp
        with es obtain items where "evs ! Suc j = paged_event m p items ab"
          "map_of items ''nextPageToken'' = Some (item (rs' ! j) ''nextPageToken'')" by blast
        with Suc show ?thesis by auto
      qed
    qed
    show ?thesis
      apply (rule exI [of _ w'], rule exI [of _ "?ev # evs"])
      using G1 a' G3 G4 G5 G6 G7 le G9 G10 by simp
  qed
qed


lemma loop_nondict:
  assumes "\<forall>d\<in>set pre. map_of d ''nextPageToken'' \<noteq> None" and "\<forall>x. v \<noteq> PRef x"
    and "w_api w = map (\<lambda>d. Returns (ReplyObject d)) pre @ Returns (ReplyOther v) # rest"
    and "ca < length (w_heap w)"
  shows "\<exists>w'. get_paged_loop m p ab (PRef ca) acc w =
           (Inl (ValueError ''API result is not a dictionary''), w')"
  using assms
proof (induction pre arbitrary: w acc)
  case Nil
  then have "w_api w = Returns (ReplyOther v) # rest" by simp
  from loop_step_other [OF this Nil.prems(2)] show ?case by blast
next
  case (Cons d pre)
  let ?h = "w_heap w"
  let ?w2 = "w\<lparr>w_trace := w_trace w @ [paged_event m p (?h ! ca) ab],
          w_api := map (\<lambda>d. Returns (ReplyObject d)) pre @ Returns (ReplyOther v) # rest,
          w_heap := (?h @ [d])
             [ca := AList.update ''nextPageToken'' (item d ''nextPageToken'') (?h ! ca)]\<rparr>"
  from Cons.prems(3) have api: "w_api w = Returns (ReplyObject d) #
      (map (\<lambda>d. Returns (ReplyObject d)) pre @ Returns (ReplyOther v) # rest)" by simp
  from Cons.prems(1) have t: "map_of d ''nextPageToken'' \<noteq> None" by simp
  have step: "get_paged_loop m p ab (PRef ca) acc w =
      get_paged_loop m p ab (PRef ca) (acc @ [PRef (length ?h)]) ?w2"
    using api t Cons.prems(4) by (rule loop_step_more)
  have "\<exists>w'. get_paged_loop m p ab (PRef ca) (acc @ [PRef (length ?h)]) ?w2 =
           (Inl (ValueError ''API result is not a dictionary''), w')"
    using Cons.prems by (intro Cons.IH) simp_all
  with step show ?case by simp
qed

lemma get_paged_start:
  assumes "is_cloud cloud_url (config c)"
    and "params_or_json = PNone \<or> is_dict (w_heap w) params_or_json"
  shows "\<exists>ca w0. get_paged cloud_url c w m p params_or_json ab =
           get_paged_loop m p ab (PRef ca) [] w0 \<and>
         ca < length (w_heap w0) \<and> w_api w0 = w_api w \<and> w_trace w0 = w_trace w \<and>
         (\<forall>a. params_or_json = PRef a \<and> w_heap w ! a \<noteq> [] \<longrightarrow> ca = a \<and> w0 = w)"
proof (cases "py_truthy (w_heap w) params_or_json")
  case True
  with assms(2) obtain a where a: "params_or_json = PRef a" "a < length (w_heap w)"
    by (cases params_or_json) (auto simp: is_dict_def py_truthy_def)
  show ?thesis
    apply (rule exI [of _ a], rule exI [of _ w])
    using assms(1) True a by (simp add: get_paged_def)
next
  case False
  let ?wa = "w\<lparr>w_heap := w_heap w @ [[]]\<rparr>"
  have nt: "\<And>a. params_or_json = PRef a \<Longrightarrow> w_heap w ! a = []"
    using False assms(2) by (auto simp: py_truthy_def is_dict_def split: if_splits)
  show ?thesis
    apply (rule exI [of _ "length (w_heap w)"], rule exI [of _ ?wa])
    using assms(1) False nt by (auto simp: get_paged_def heap_alloc_def)
qed

lemma paged_script_split:
  assumes "rs \<noteq> []"
    and "\<forall>i<length rs. (map_of (rs ! i) ''nextPageToken'' \<noteq> None) = (i < length rs - 1)"
  shows "\<forall>d\<in>set (butlast rs). map_of d ''nextPageToken'' \<noteq> None"
    and "map_of (last rs) ''nextPageToken'' = None"
proof -
  show "\<forall>d\<in>set (butlast rs). map_of d ''nextPageToken'' \<noteq> None"
  proof
    fix d assume "d \<in> set (butlast rs)"
    then obtain i where i: "i < length (butlast rs)" "butlast rs ! i = d"
      by (auto simp: in_set_conv_nth)
    then have i': "i < length rs - 1" "rs ! i = d" by (simp_all add: nth_butlast)
    then have "i < length rs" by simp
    from assms(2) [rule_format, OF this] i' show "map_of d ''nextPageToken'' \<noteq> None"
      by simp
  qed
  have "length rs - 1 < length rs" using assms(1) by (cases rs) simp_all
  from assms(2) [rule_format, OF this]
  have "map_of (rs ! (length rs - 1)) ''nextPageToken'' = None" by simp
  then show "map_of (last rs) ''nextPageToken'' = None"
    using assms(1) by (simp add: last_conv_nth)
qed


lemma cloud_client_is_cloud: "is_cloud cloud_suffix (config cloud_client)"
  by (simp add: is_cloud_def cloud_client_def example_config_def str_truthy_def
      cloud_suffix_def suffix_def)


text \<open>
  Claim C3. On a Cloud client, with \<open>params_or_json\<close> either \<open>None\<close> or a
  dictionary: when the successive replies are \<open>n \<ge> 1\<close> JSON objects \<open>rs\<close> of which
  exactly those before the last have the key \<open>nextPageToken\<close>, \<open>get_paged\<close> returns
  \<open>n\<close> distinct dictionaries whose items are \<open>rs ! 0\<close>, ..., \<open>rs ! (n - 1)\<close> in this
  order, after exactly \<open>n\<close> requests, and the parameters of the request for page
  \<open>i + 1\<close> hold under \<open>nextPageToken\<close> the token of \<open>rs ! i\<close>. When, after any number
  of objects with a token, a reply is not a JSON object, \<open>get_paged\<close> raises a
  \<open>ValueError\<close>.
\<close>

theorem get_paged_pages:
  assumes "is_cloud cloud_url (config c)"
    and "params_or_json = PNone \<or> is_dict (w_heap w) params_or_json"
  shows
    "(rs \<noteq> [] \<and>
      (\<forall>i<length rs. (map_of (rs ! i) ''nextPageToken'' \<noteq> None) = (i < length rs - 1)) \<and>
      w_api w = map (\<lambda>d. Returns (ReplyObject d)) rs @ rest \<longrightarrow>
      (\<exists>pages w' evs.
         get_paged cloud_url c w m p params_or_json ab = (Inr pages, w') \<and>
         length pages = length rs \<and> distinct pages \<and>
         (\<forall>i<length rs. is_dict (w_heap w') (pages ! i) \<and>
                          dict_items (w_heap w') (pages ! i) = rs ! i) \<and>
         w_api w' = rest \<and>
         w_trace w' = w_trace w @ evs \<and> length evs = length rs \<and>
         (\<forall>i. Suc i < length rs \<longrightarrow>
            (\<exists>items. evs ! Suc i = paged_event m p items ab \<and>
               map_of items ''nextPageToken'' = Some (item (rs ! i) ''nextPageToken''))))) \<and>
     ((\<forall>d\<in>set pre. map_of d ''nextPageToken'' \<noteq> None) \<and> (\<forall>x. v \<noteq> PRef x) \<and>
      w_api w = map (\<lambda>d. Returns (ReplyObject d)) pre @ Returns (ReplyOther v) # rest' \<longrightarrow>
      (\<exists>msg w'. get_paged cloud_url c w m p params_or_json ab = (Inl (ValueError msg), w')))"
proof (intro conjI impI)
  from get_paged_start [OF assms, of m p ab] obtain ca w0 where
    st: "get_paged cloud_url c w m p params_or_json ab = get_paged_loop m p ab (PRef ca) [] w0"
    and ca: "ca < length (w_heap w0)" and a0: "w_api w0 = w_api w"
    and t0: "w_trace w0 = w_trace w"
    by blast
  {
    assume h: "rs \<noteq> [] \<and>
      (\<forall>i<length rs. (map_of (rs ! i) ''nextPageToken'' \<noteq> None) = (i < length rs - 1)) \<and>
      w_api w = map (\<lambda>d. Returns (ReplyObject d)) rs @ rest"
    then have ne: "rs \<noteq> []" and api: "w_api w0 = map (\<lambda>d. Returns (ReplyObject d)) rs @ rest"
      and ix: "\<forall>i<length rs. (map_of (rs ! i) ''nextPageToken'' \<noteq> None) = (i < length rs - 1)"
      using a0 by simp_all
    note sp = paged_script_split [OF ne ix]
    let ?k = "length (w_heap w0)"
    from loop_pages [OF ne sp api ca, of m p ab "[]"] obtain w' evs where
      eq: "get_paged_loop m p ab (PRef ca) [] w0 =
             (Inr ([] @ map PRef [?k ..< ?k + length rs]), w')" and
      a': "w_api w' = rest" and
      l': "length (w_heap w') = ?k + length rs" and
      pg: "\<forall>i<length rs. w_heap w' ! (?k + i) = rs ! i" and
      tr: "w_trace w' = w_trace w0 @ evs" and le: "length evs = length rs" and
      es: "\<forall>i. Suc i < length rs \<longrightarrow>
         (\<exists>items. evs ! Suc i = paged_event m p items ab \<and>
            map_of items ''nextPageToken'' = Some (item (rs ! i) ''nextPageToken''))"
      by blast
    let ?pages = "map PRef [?k ..< ?k + length rs]"
    have d: "distinct ?pages" by (simp add: distinct_map inj_on_def)
    have pgs: "\<forall>i<length rs. is_dict (w_heap w') (?pages ! i) \<and>
                          dict_items (w_heap w') (?pages ! i) = rs ! i"
      using pg l' by (simp add: is_dict_def dict_items_def)
    show "\<exists>pages w' evs.
         get_paged cloud_url c w m p params_or_json ab = (Inr pages, w') \<and>
         length pages = length rs \<and> distinct pages \<and>
         (\<forall>i<length rs. is_dict (w_heap w') (pages ! i) \<and>
                          dict_items (w_heap w') (pages ! i) = rs ! i) \<and>
         w_api w' = rest \<and>
         w_trace w' = w_trace w @ evs \<and> length evs = length rs \<and>
         (\<forall>i. Suc i < length rs \<longrightarrow>
            (\<exists>items. evs ! Suc i = paged_event m p items ab \<and>
               map_of items ''nextPageToken'' = Some (item (rs ! i) ''nextPageToken'')))"
      apply (rule exI [of _ ?pages], rule exI [of _ w'], rule exI [of _ evs])
      apply (intro conjI)
      using st eq apply simp
      apply simp
      apply (rule d)
      apply (rule pgs)
      apply (rule a')
      using tr t0 apply simp
      apply (rule le)
      apply (rule es)
      done
  }
  {
    assume h: "(\<forall>d\<in>set pre. map_of d ''nextPageToken'' \<noteq> None) \<and> (\<forall>x. v \<noteq> PRef x) \<and>
      w_api w = map (\<lambda>d. Returns (ReplyObject d)) pre @ Returns (ReplyOther v) # rest'"
    then have "\<exists>w'. get_paged_loop m p ab (PRef ca) [] w0 =
           (Inl (ValueError ''API result is not a dictionary''), w')"
      using a0 ca by (intro loop_nondict) simp_all
    then obtain w' where "get_paged_loop m p ab (PRef ca) [] w0 =
           (Inl (ValueError ''API result is not a dictionary''), w')" ..
    with st have "get_paged cloud_url c w m p params_or_json ab =
        (Inl (ValueError ''API result is not a dictionary''), w')" by simp
    then show "\<exists>msg w'. get_paged cloud_url c w m p params_or_json ab =
        (Inl (ValueError msg), w')" by (intro exI)
  }
qed

theorem get_paged_pages_witness:
  "is_cloud cloud_suffix (config cloud_client) \<and>
   (\<exists>pages w'.
      get_paged cloud_suffix cloud_client
        (paged_world [] [Returns (ReplyObject page1), Returns (ReplyObject page2)])
        ''get'' ''/rest/api/3/search/jql'' PNone False = (Inr pages, w') \<and>
      length pages = 2 \<and>
      dict_items (w_heap w') (pages ! 0) = page1 \<and>
      dict_items (w_heap w') (pages ! 1) = page2 \<and>
      length (w_trace w') = 2 \<and>
      (\<exists>items. w_trace w' ! 1 = JiraGet ''/rest/api/3/search/jql'' items False \<and>
         map_of items ''nextPageToken'' = Some (PStr ''t1''))) \<and>
   (\<exists>msg w'.
      get_paged cloud_suffix cloud_client
        (paged_world [] [Returns (ReplyObject page1), Returns (ReplyOther (PList []))])
        ''get'' ''/rest/api/3/search/jql'' PNone False = (Inl (ValueError msg), w'))"
proof -
  let ?p = "''/rest/api/3/search/jql''"
  let ?w = "paged_world [] [Returns (ReplyObject page1), Returns (ReplyObject page2)]"
  let ?v = "paged_world [] [Returns (ReplyObject page1), Returns (ReplyOther (PList []))]"
  let ?rs = "[page1, page2]"
  have pn: "\<And>w. PNone = PNone \<or> is_dict (w_heap w) PNone" by simp
  have h1: "?rs \<noteq> [] \<and>
      (\<forall>i<length ?rs. (map_of (?rs ! i) ''nextPageToken'' \<noteq> None) = (i < length ?rs - 1)) \<and>
      w_api ?w = map (\<lambda>d. Returns (ReplyObject d)) ?rs @ []"
    by (auto simp: less_Suc_eq page1_def page2_def paged_world_def)
  have h2: "(\<forall>d\<in>set [page1]. map_of d ''nextPageToken'' \<noteq> None) \<and>
      (\<forall>x. PList [] \<noteq> PRef x) \<and>
      w_api ?v = map (\<lambda>d. Returns (ReplyObject d)) [page1] @ Returns (ReplyOther (PList [])) # []"
    by (simp add: page1_def paged_world_def)
  note T = get_paged_pages [OF cloud_client_is_cloud pn, where w = ?w and rs = ?rs
      and rest = "[]" and m = "''get''" and p = ?p and ab = False]
  from T [THEN conjunct1, THEN mp, OF h1]
  obtain pages w' evs where all:
    "get_paged cloud_suffix cloud_client ?w ''get'' ?p PNone False = (Inr pages, w') \<and>
     length pages = length ?rs \<and> distinct pages \<and>
     (\<forall>i<length ?rs. is_dict (w_heap w') (pages ! i) \<and>
                          dict_items (w_heap w') (pages ! i) = ?rs ! i) \<and>
     w_api w' = [] \<and>
     w_trace w' = w_trace ?w @ evs \<and> length evs = length ?rs \<and>
     (\<forall>i. Suc i < length ?rs \<longrightarrow>
            (\<exists>items. evs ! Suc i = paged_event ''get'' ?p items False \<and>
               map_of items ''nextPageToken'' = Some (item (?rs ! i) ''nextPageToken'')))"
    by (elim exE) (rule that)
  note eq = all [THEN conjunct1]
  note r1 = all [THEN conjunct2]
  note len = r1 [THEN conjunct1]
  note r3 = r1 [THEN conjunct2, THEN conjunct2]
  note pg = r3 [THEN conjunct1]
  note r5 = r3 [THEN conjunct2, THEN conjunct2]
  note tr = r5 [THEN conjunct1]
  note le = r5 [THEN conjunct2, THEN conjunct1]
  note es = r5 [THEN conjunct2, THEN conjunct2]
  from pg have p0: "dict_items (w_heap w') (pages ! 0) = page1"
    and p1: "dict_items (w_heap w') (pages ! 1) = page2" by simp_all
  from tr have tr': "w_trace w' = evs" by (simp add: paged_world_def)
  from es [rule_format, of 0] obtain items where
    "evs ! 1 = JiraGet ?p items False" "map_of items ''nextPageToken'' = Some (PStr ''t1'')"
    by (auto simp: paged_event_def item_def page1_def)
  with tr' have e1: "\<exists>items. w_trace w' ! 1 = JiraGet ?p items False \<and>
         map_of items ''nextPageToken'' = Some (PStr ''t1'')" by simp
  have A: "\<exists>pages w'.
      get_paged cloud_suffix cloud_client ?w ''get'' ?p PNone False = (Inr pages, w') \<and>
      length pages = 2 \<and>
      dict_items (w_heap w') (pages ! 0) = page1 \<and>
      dict_items (w_heap w') (pages ! 1) = page2 \<and>
      length (w_trace w') = 2 \<and>
      (\<exists>items. w_trace w' ! 1 = JiraGet ?p items False \<and>
         map_of items ''nextPageToken'' = Some (PStr ''t1''))"
    apply (rule exI [of _ pages], rule exI [of _ w'])
    using eq len p0 p1 tr' le e1 by simp
  note U = get_paged_pages [OF cloud_client_is_cloud pn, where w = ?v and pre = "[page1]"
      and v = "PList []" and rest' = "[]" and m = "''get''" and p = ?p and ab = False]
  have B: "\<exists>msg w'. get_paged cloud_suffix cloud_client ?v ''get'' ?p PNone False =
      (Inl (ValueError msg), w')" by (rule U [THEN conjunct2, THEN mp, OF h2])
  from cloud_client_is_cloud A B show ?thesis by (intro conjI)
qed


lemma paged_token_written:
  assumes "is_cloud cloud_url (config c)"
    and "a < length (w_heap w)" and "w_heap w ! a \<noteq> []"
    and "2 \<le> length rs"
    and "\<forall>i<length rs. (map_of (rs ! i) ''nextPageToken'' \<noteq> None) = (i < length rs - 1)"
    and "w_api w = map (\<lambda>d. Returns (ReplyObject d)) rs @ rest"
  shows "\<exists>pages w'.
     get_paged cloud_url c w m p (PRef a) ab = (Inr pages, w') \<and>
     map_of (w_heap w' ! a) ''nextPageToken'' =
       map_of (rs ! (length rs - 2)) ''nextPageToken'' \<and>
     map_of (w_heap w' ! a) ''nextPageToken'' \<noteq> None \<and>
     (\<forall>k. k \<noteq> ''nextPageToken'' \<longrightarrow> map_of (w_heap w' ! a) k = map_of (w_heap w ! a) k) \<and>
     (\<forall>b<length (w_heap w). b \<noteq> a \<longrightarrow> w_heap w' ! b = w_heap w ! b)"
proof -
  from assms(4) have ne: "rs \<noteq> []" by auto
  note sp = paged_script_split [OF ne assms(5)]
  have tr: "py_truthy (w_heap w) (PRef a)" using assms(2,3) by (simp add: py_truthy_def)
  have st: "get_paged cloud_url c w m p (PRef a) ab = get_paged_loop m p ab (PRef a) [] w"
    using assms(1) tr by (simp add: get_paged_def)
  from loop_pages [OF ne sp assms(6) assms(2), of m p ab "[]"] obtain w' evs where
    eq: "get_paged_loop m p ab (PRef a) [] w =
           (Inr ([] @ map PRef [length (w_heap w) ..< length (w_heap w) + length rs]), w')" and
    fr: "\<forall>b<length (w_heap w). b \<noteq> a \<longrightarrow> w_heap w' ! b = w_heap w ! b" and
    cc: "w_heap w' ! a =
        (if length rs = 1 then w_heap w ! a
         else AList.update ''nextPageToken'' (item (rs ! (length rs - 2)) ''nextPageToken'')
                (w_heap w ! a))"
    by blast
  from assms(4) cc have cc': "w_heap w' ! a =
      AList.update ''nextPageToken'' (item (rs ! (length rs - 2)) ''nextPageToken'')
         (w_heap w ! a)" by simp
  have "length rs - 2 < length rs" "length rs - 2 < length rs - 1" using assms(4) by simp_all
  with assms(5) have tk: "map_of (rs ! (length rs - 2)) ''nextPageToken'' \<noteq> None" by blast
  then have it: "Some (item (rs ! (length rs - 2)) ''nextPageToken'') =
      map_of (rs ! (length rs - 2)) ''nextPageToken''" by (rule item_Some)
  have m1: "map_of (w_heap w' ! a) ''nextPageToken'' =
       map_of (rs ! (length rs - 2)) ''nextPageToken''"
    unfolding cc' by (simp add: update_conv' it)
  have m2: "\<forall>k. k \<noteq> ''nextPageToken'' \<longrightarrow> map_of (w_heap w' ! a) k = map_of (w_heap w ! a) k"
    unfolding cc' by (simp add: update_conv')
  show ?thesis
    apply (rule exI [of _ "map PRef [length (w_heap w) ..< length (w_heap w) + length rs]"])
    apply (rule exI [of _ w'])
    apply (intro conjI)
    using st eq apply simp
    apply (rule m1)
    using m1 tk apply simp
    apply (rule m2)
    apply (rule fr)
    done
qed

lemma paged_empty_untouched:
  assumes "is_cloud cloud_url (config c)"
    and "a < length (w_heap w)" and "w_heap w ! a = []"
    and "rs \<noteq> []"
    and "\<forall>i<length rs. (map_of (rs ! i) ''nextPageToken'' \<noteq> None) = (i < length rs - 1)"
    and "w_api w = map (\<lambda>d. Returns (ReplyObject d)) rs @ rest"
  shows "\<exists>pages w'.
     get_paged cloud_url c w m p (PRef a) ab = (Inr pages, w') \<and>
     w_heap w' ! a = [] \<and>
     (\<forall>b<length (w_heap w). w_heap w' ! b = w_heap w ! b)"
proof -
  let ?h = "w_heap w"
  let ?w0 = "w\<lparr>w_heap := ?h @ [[]]\<rparr>"
  note sp = paged_script_split [OF assms(4) assms(5)]
  have tr: "\<not> py_truthy ?h (PRef a)" using assms(2,3) by (simp add: py_truthy_def)
  have st: "get_paged cloud_url c w m p (PRef a) ab =
      get_paged_loop m p ab (PRef (length ?h)) [] ?w0"
    using assms(1) tr by (simp add: get_paged_def heap_alloc_def)
  have api: "w_api ?w0 = map (\<lambda>d. Returns (ReplyObject d)) rs @ rest"
    using assms(6) by simp
  have ca: "length ?h < length (w_heap ?w0)" by simp
  from loop_pages [OF assms(4) sp api ca, of m p ab "[]"] obtain w' evs where
    eq: "get_paged_loop m p ab (PRef (length ?h)) [] ?w0 =
           (Inr ([] @ map PRef [length (w_heap ?w0) ..< length (w_heap ?w0) + length rs]), w')"
    and fr: "\<forall>b<length (w_heap ?w0). b \<noteq> length ?h \<longrightarrow> w_heap w' ! b = w_heap ?w0 ! b"
    by blast
  have old: "\<forall>b<length ?h. w_heap w' ! b = ?h ! b"
  proof (intro allI impI)
    fix b assume b: "b < length ?h"
    then have "b < length (w_heap ?w0)" "b \<noteq> length ?h" by simp_all
    with fr have "w_heap w' ! b = w_heap ?w0 ! b" by blast
    with b show "w_heap w' ! b = ?h ! b" by (simp add: nth_append)
  qed
  from old assms(2,3) have e: "w_heap w' ! a = []" by simp
  show ?thesis
    apply (rule exI [of _ "map PRef [length (w_heap ?w0) ..< length (w_heap ?w0) + length rs]"])
    apply (rule exI [of _ w'])
    apply (intro conjI)
    using st eq apply simp
    apply (rule e)
    apply (rule old)
    done
qed

text \<open>
  Claim C10, as the code has it. Let the caller pass a dictionary and let the call fetch
  the pages \<open>rs\<close>. When the dictionary is not empty and there are \<open>n \<ge> 2\<close> pages,
  then after the call the caller's dictionary holds under \<open>nextPageToken\<close> the token
  of the page before the last; its other keys and all other dictionaries that existed
  before the call are as they were. When the dictionary is empty, then after the call
  it is still empty, and so is every dictionary that existed before the call as it was:
  the tokens went into a dictionary of the call's own.
\<close>

theorem get_paged_writes_token:
  assumes "is_cloud cloud_url (config c)"
    and "a < length (w_heap w)"
    and "\<forall>i<length rs. (map_of (rs ! i) ''nextPageToken'' \<noteq> None) = (i < length rs - 1)"
    and "w_api w = map (\<lambda>d. Returns (ReplyObject d)) rs @ rest"
  shows
    "(w_heap w ! a \<noteq> [] \<and> 2 \<le> length rs \<longrightarrow>
       (\<exists>pages w'.
          get_paged cloud_url c w m p (PRef a) ab = (Inr pages, w') \<and>
          map_of (w_heap w' ! a) ''nextPageToken'' =
            map_of (rs ! (length rs - 2)) ''nextPageToken'' \<and>
          map_of (w_heap w' ! a) ''nextPageToken'' \<noteq> None \<and>
          (\<forall>k. k \<noteq> ''nextPageToken'' \<longrightarrow>
                 map_of (w_heap w' ! a) k = map_of (w_heap w ! a) k) \<and>
          (\<forall>b<length (w_heap w). b \<noteq> a \<longrightarrow> w_heap w' ! b = w_heap w ! b))) \<and>
     (w_heap w ! a = [] \<and> rs \<noteq> [] \<longrightarrow>
       (\<exists>pages w'.
          get_paged cloud_url c w m p (PRef a) ab = (Inr pages, w') \<and>
          w_heap w' ! a = [] \<and>
          (\<forall>b<length (w_heap w). w_heap w' ! b = w_heap w ! b)))"
proof (intro conjI impI)
  assume h: "w_heap w ! a \<noteq> [] \<and> 2 \<le> length rs"
  show "\<exists>pages w'.
          get_paged cloud_url c w m p (PRef a) ab = (Inr pages, w') \<and>
          map_of (w_heap w' ! a) ''nextPageToken'' =
            map_of (rs ! (length rs - 2)) ''nextPageToken'' \<and>
          map_of (w_heap w' ! a) ''nextPageToken'' \<noteq> None \<and>
          (\<forall>k. k \<noteq> ''nextPageToken'' \<longrightarrow>
                 map_of (w_heap w' ! a) k = map_of (w_heap w ! a) k) \<and>
          (\<forall>b<length (w_heap w). b \<noteq> a \<longrightarrow> w_heap w' ! b = w_heap w ! b)"
    by (rule paged_token_written
          [OF assms(1) assms(2) h [THEN conjunct1] h [THEN conjunct2] assms(3) assms(4)])
next
  assume h: "w_heap w ! a = [] \<and> rs \<noteq> []"
  show "\<exists>pages w'.
          get_paged cloud_url c w m p (PRef a) ab = (Inr pages, w') \<and>
          w_heap w' ! a = [] \<and>
          (\<forall>b<length (w_heap w). w_heap w' ! b = w_heap w ! b)"
    by (rule paged_empty_untouched
          [OF assms(1) assms(2) h [THEN conjunct1] h [THEN conjunct2] assms(3) assms(4)])
qed

theorem get_paged_writes_token_witness:
  "is_cloud cloud_suffix (config cloud_client) \<and>
   (\<exists>pages w'.
      get_paged cloud_suffix cloud_client
        (paged_world [[(''jql'', PStr ''project = A'')]]
           [Returns (ReplyObject page1), Returns (ReplyObject page2)])
        ''post'' ''/rest/api/3/search/jql'' (PRef 0) False = (Inr pages, w') \<and>
      map_of (w_heap w' ! 0) ''nextPageToken'' = Some (PStr ''t1'') \<and>
      map_of (w_heap w' ! 0) ''jql'' = Some (PStr ''project = A'')) \<and>
   (\<exists>pages w'.
      get_paged cloud_suffix cloud_client
        (paged_world [[(''jql'', PStr ''project = A'')], []]
           [Returns (ReplyObject page1), Returns (ReplyObject page2)])
        ''post'' ''/rest/api/3/search/jql'' (PRef 1) False = (Inr pages, w') \<and>
      w_heap w' ! 1 = [] \<and>
      w_heap w' ! 0 = [(''jql'', PStr ''project = A'')])"
proof -
  let ?p = "''/rest/api/3/search/jql''"
  let ?w = "paged_world [[(''jql'', PStr ''project = A'')]]
           [Returns (ReplyObject page1), Returns (ReplyObject page2)]"
  let ?v = "paged_world [[(''jql'', PStr ''project = A'')], []]
           [Returns (ReplyObject page1), Returns (ReplyObject page2)]"
  let ?rs = "[page1, page2]"
  have a: "0 < length (w_heap ?w)" by (simp add: paged_world_def)
  have b: "w_heap ?w ! 0 \<noteq> [] \<and> 2 \<le> length ?rs" by (simp add: paged_world_def)
  have d: "\<forall>i<length ?rs. (map_of (?rs ! i) ''nextPageToken'' \<noteq> None) = (i < length ?rs - 1)"
    by (auto simp: less_Suc_eq page1_def page2_def)
  have e: "w_api ?w = map (\<lambda>d. Returns (ReplyObject d)) ?rs @ []" by (simp add: paged_world_def)
  note T = get_paged_writes_token [OF cloud_client_is_cloud a d e, of "''post''" ?p False]
  from T [THEN conjunct1, THEN mp, OF b]
  obtain pages w' where
    eq: "get_paged cloud_suffix cloud_client ?w ''post'' ?p (PRef 0) False = (Inr pages, w')" and
    m1: "map_of (w_heap w' ! 0) ''nextPageToken'' = map_of (?rs ! (length ?rs - 2)) ''nextPageToken''" and
    m2: "\<forall>k. k \<noteq> ''nextPageToken'' \<longrightarrow> map_of (w_heap w' ! 0) k = map_of (w_heap ?w ! 0) k"
    by blast
  from m1 have n1: "map_of (w_heap w' ! 0) ''nextPageToken'' = Some (PStr ''t1'')"
    by (simp add: page1_def)
  from m2 [rule_format, of "''jql''"]
  have n2: "map_of (w_heap w' ! 0) ''jql'' = Some (PStr ''project = A'')"
    by (simp add: paged_world_def)
  have A: "\<exists>pages w'.
      get_paged cloud_suffix cloud_client ?w ''post'' ?p (PRef 0) False = (Inr pages, w') \<and>
      map_of (w_heap w' ! 0) ''nextPageToken'' = Some (PStr ''t1'') \<and>
      map_of (w_heap w' ! 0) ''jql'' = Some (PStr ''project = A'')"
    apply (rule exI [of _ pages], rule exI [of _ w'])
    using eq n1 n2 by simp
  have a': "1 < length (w_heap ?v)" by (simp add: paged_world_def)
  have b': "w_heap ?v ! 1 = [] \<and> ?rs \<noteq> []" by (simp add: paged_world_def)
  have e': "w_api ?v = map (\<lambda>d. Returns (ReplyObject d)) ?rs @ []" by (simp add: paged_world_def)
  note U = get_paged_writes_token [OF cloud_client_is_cloud a' d e', of "''post''" ?p False]
  from U [THEN conjunct2, THEN mp, OF b']
  obtain pages2 w2 where
    eq2: "get_paged cloud_suffix cloud_client ?v ''post'' ?p (PRef 1) False = (Inr pages2, w2)" and
    u1: "w_heap w2 ! 1 = []" and
    u2: "\<forall>b<length (w_heap ?v). w_heap w2 ! b = w_heap ?v ! b"
    by blast
  from u2 [rule_format, of 0]
  have u3: "w_heap w2 ! 0 = [(''jql'', PStr ''project = A'')]" by (simp add: paged_world_def)
  have B: "\<exists>pages w'.
      get_paged cloud_suffix cloud_client ?v ''post'' ?p (PRef 1) False = (Inr pages, w') \<and>
      w_heap w' ! 1 = [] \<and>
      w_heap w' ! 0 = [(''jql'', PStr ''project = A'')]"
    apply (rule exI [of _ pages2], rule exI [of _ w2])
    using eq2 u1 u3 by simp
  from cloud_client_is_cloud A B show ?thesis by (intro conjI)
qed


text \<open>
  The claim as it was stated fails for an empty dictionary: \<open>params_or_json or {}\<close>
  takes a falsy argument for absent, so the tokens are written into a new dictionary
  (address 1 below) and the caller's dictionary (address 0) stays empty.
\<close>

theorem get_paged_counterexample:
  "is_cloud cloud_suffix (config cloud_client) \<and>
   is_dict [[]] (PRef 0) \<and>
   fst (get_paged cloud_suffix cloud_client
        (paged_world [[]] [Returns (ReplyObject page1), Returns (ReplyObject page2)])
        ''post'' ''/rest/api/3/search/jql'' (PRef 0) False) = Inr [PRef 2, PRef 3] \<and>
   w_heap (snd (get_paged cloud_suffix cloud_client
        (paged_world [[]] [Returns (ReplyObject page1), Returns (ReplyObject page2)])
        ''post'' ''/rest/api/3/search/jql'' (PRef 0) False)) =
     [[], [(''nextPageToken'', PStr ''t1'')], page1, page2]"
proof -
  let ?p = "''/rest/api/3/search/jql''"
  let ?w = "paged_world [[]] [Returns (ReplyObject page1), Returns (ReplyObject page2)]"
  let ?wa = "paged_world [[], []] [Returns (ReplyObject page1), Returns (ReplyObject page2)]"
  have st: "get_paged cloud_suffix cloud_client ?w ''post'' ?p (PRef 0) False =
      get_paged_loop ''post'' ?p False (PRef 1) [] ?wa"
    using cloud_client_is_cloud
    by (simp add: get_paged_def py_truthy_def heap_alloc_def paged_world_def)
  have t1: "map_of page1 ''nextPageToken'' \<noteq> None" by (simp add: page1_def)
  have t2: "map_of page2 ''nextPageToken'' = None" by (simp add: page2_def)
  have a1: "w_api ?wa = Returns (ReplyObject page1) # [Returns (ReplyObject page2)]"
    by (simp add: paged_world_def)
  have l1: "1 < length (w_heap ?wa)" by (simp add: paged_world_def)
  have s1: "get_paged_loop ''post'' ?p False (PRef 1) [] ?wa =
     get_paged_loop ''post'' ?p False (PRef 1) [PRef 2]
       \<lparr>w_heap = [[], [(''nextPageToken'', PStr ''t1'')], page1], w_http = [],
        w_api = [Returns (ReplyObject page2)],
        w_trace = [JiraPost ?p [] False]\<rparr>"
    by (subst loop_step_more [OF a1 t1 l1])
       (simp add: paged_world_def paged_event_def item_def page1_def numeral_2_eq_2)
  have s2: "get_paged_loop ''post'' ?p False (PRef 1) [PRef 2]
       \<lparr>w_heap = [[], [(''nextPageToken'', PStr ''t1'')], page1], w_http = [],
        w_api = [Returns (ReplyObject page2)],
        w_trace = [JiraPost ?p [] False]\<rparr> =
     (Inr [PRef 2, PRef 3],
       \<lparr>w_heap = [[], [(''nextPageToken'', PStr ''t1'')], page1, page2], w_http = [],
        w_api = [],
        w_trace = [JiraPost ?p [] False, JiraPost ?p [(''nextPageToken'', PStr ''t1'')] False]\<rparr>)"
    by (subst loop_step_last [where d = page2 and rest = "[]"])
       (simp_all add: t2 paged_event_def dict_items_def numeral_2_eq_2 numeral_3_eq_3)
  have d: "is_dict [[]] (PRef 0)" by (simp add: is_dict_def)
  show ?thesis
    apply (intro conjI)
    apply (rule cloud_client_is_cloud)
    apply (rule d)
    unfolding st s1 s2 by simp_all
qed

section \<open>Verification: comments\<close>

lemma api_call_trace: "w_trace (snd (api_call w ev)) = w_trace w @ [ev]"
  by (simp add: api_call_def Let_def split: list.splits outcome.splits api_reply.splits)

lemma api_call_fst_trace: "fst (api_call (w\<lparr>w_trace := t\<rparr>) ev) = fst (api_call w ev)"
  by (simp add: api_call_def Let_def split: list.splits outcome.splits api_reply.splits)

lemma add_comment_try_trace:
  "w_trace (snd (add_comment_try ext c w issue_key comment visibility)) =
     w_trace w @ [JiraIssueAddComment issue_key
        (markdown_to_jira (preprocessor_markdown_to_jira ext) comment) visibility]"
proof -
  let ?ev = "JiraIssueAddComment issue_key
        (markdown_to_jira (preprocessor_markdown_to_jira ext) comment) visibility"
  obtain r w1 where a: "api_call w ?ev = (r, w1)" by (cases "api_call w ?ev")
  with api_call_trace [of w ?ev] have t: "w_trace w1 = w_trace w @ [?ev]" by simp
  show ?thesis
    unfolding add_comment_try_def Let_def a
    by (simp add: t heap_alloc_def split: sum.splits prod.splits)
qed

lemma edit_comment_try_trace:
  "w_trace (snd (edit_comment_try ext c w issue_key comment_id comment visibility)) =
     w_trace w @ [JiraIssueEditComment issue_key comment_id
        (markdown_to_jira (preprocessor_markdown_to_jira ext) comment) visibility]"
proof -
  let ?ev = "JiraIssueEditComment issue_key comment_id
        (markdown_to_jira (preprocessor_markdown_to_jira ext) comment) visibility"
  obtain r w1 where a: "api_call w ?ev = (r, w1)" by (cases "api_call w ?ev")
  with api_call_trace [of w ?ev] have t: "w_trace w1 = w_trace w @ [?ev]" by simp
  show ?thesis
    unfolding edit_comment_try_def Let_def a
    by (simp add: t heap_alloc_def split: sum.splits prod.splits)
qed

lemma add_comment_trace:
  "w_trace (snd (add_comment ext c w issue_key comment visibility)) =
     w_trace (snd (add_comment_try ext c w issue_key comment visibility))"
  by (simp add: add_comment_def split: prod.splits sum.splits)

lemma edit_comment_trace:
  "w_trace (snd (edit_comment ext c w issue_key comment_id comment visibility)) =
     w_trace (snd (edit_comment_try ext c w issue_key comment_id comment visibility))"
  by (simp add: edit_comment_def split: prod.splits sum.splits)

lemma add_comment_converter:
  assumes "markdown_to_jira (preprocessor_markdown_to_jira ext) comment =
           markdown_to_jira (preprocessor_markdown_to_jira ext') comment"
    and "preprocessor_clean_jira_text ext = preprocessor_clean_jira_text ext'"
    and "parse_date_str ext = parse_date_str ext'"
  shows "add_comment ext c w issue_key comment visibility =
         add_comment ext' c w issue_key comment visibility"
  unfolding add_comment_def add_comment_try_def clean_text_def assms by (rule refl)

lemma edit_comment_converter:
  assumes "markdown_to_jira (preprocessor_markdown_to_jira ext) comment =
           markdown_to_jira (preprocessor_markdown_to_jira ext') comment"
    and "preprocessor_clean_jira_text ext = preprocessor_clean_jira_text ext'"
    and "parse_date_str ext = parse_date_str ext'"
  shows "edit_comment ext c w issue_key comment_id comment visibility =
         edit_comment ext' c w issue_key comment_id comment visibility"
  unfolding edit_comment_def edit_comment_try_def clean_text_def assms by (rule refl)

text \<open>
  Claim C8. For a non-empty text on which the preprocessor's \<open>markdown_to_jira\<close>
  raises, \<open>_markdown_to_jira\<close> returns the text unchanged. \<open>add_comment\<close> and
  \<open>edit_comment\<close> then make exactly one request, which carries the original text, and
  return or raise exactly what they do with a converter that returns its argument: the
  failed conversion is not among the errors of the operation.
\<close>

theorem markdown_to_jira_fallback:
  assumes "comment \<noteq> []" and "preprocessor_markdown_to_jira ext comment = Inl e"
  shows "markdown_to_jira (preprocessor_markdown_to_jira ext) comment = comment \<and>
    add_comment ext c w issue_key comment visibility =
      add_comment (ext\<lparr>preprocessor_markdown_to_jira := Inr\<rparr>) c w issue_key comment visibility \<and>
    w_trace (snd (add_comment ext c w issue_key comment visibility)) =
      w_trace w @ [JiraIssueAddComment issue_key comment visibility] \<and>
    edit_comment ext c w issue_key comment_id comment visibility =
      edit_comment (ext\<lparr>preprocessor_markdown_to_jira := Inr\<rparr>) c w issue_key comment_id
        comment visibility \<and>
    w_trace (snd (edit_comment ext c w issue_key comment_id comment visibility)) =
      w_trace w @ [JiraIssueEditComment issue_key comment_id comment visibility]"
proof -
  let ?ext' = "ext\<lparr>preprocessor_markdown_to_jira := Inr\<rparr>"
  have m: "markdown_to_jira (preprocessor_markdown_to_jira ext) comment = comment"
    using assms by (simp add: markdown_to_jira_def)
  have m': "markdown_to_jira (preprocessor_markdown_to_jira ext) comment =
            markdown_to_jira (preprocessor_markdown_to_jira ?ext') comment"
    using assms by (simp add: markdown_to_jira_def)
  have c: "preprocessor_clean_jira_text ext = preprocessor_clean_jira_text ?ext'" by simp
  have d: "parse_date_str ext = parse_date_str ?ext'" by simp
  have a1: "add_comment ext c w issue_key comment visibility =
      add_comment ?ext' c w issue_key comment visibility"
    using m' c d by (rule add_comment_converter)
  have e1: "edit_comment ext c w issue_key comment_id comment visibility =
      edit_comment ?ext' c w issue_key comment_id comment visibility"
    using m' c d by (rule edit_comment_converter)
  have a2: "w_trace (snd (add_comment ext c w issue_key comment visibility)) =
      w_trace w @ [JiraIssueAddComment issue_key comment visibility]"
    unfolding add_comment_trace add_comment_try_trace m by (rule refl)
  have e2: "w_trace (snd (edit_comment ext c w issue_key comment_id comment visibility)) =
      w_trace w @ [JiraIssueEditComment issue_key comment_id comment visibility]"
    unfolding edit_comment_trace edit_comment_try_trace m by (rule refl)
  from m a1 a2 e1 e2 show ?thesis by (intro conjI)
qed

theorem markdown_to_jira_fallback_witness:
  "(''**hi**'' :: string) \<noteq> [] \<and>
   markdown_to_jira (preprocessor_markdown_to_jira failing_helpers) ''**hi**'' = ''**hi**'' \<and>
   w_trace (snd (add_comment failing_helpers cloud_client
       (paged_world example_heap [Returns (ReplyObject comment_reply)])
       ''A-1'' ''**hi**'' PNone)) = [JiraIssueAddComment ''A-1'' ''**hi**'' PNone] \<and>
   fst (add_comment failing_helpers cloud_client
       (paged_world example_heap [Returns (ReplyObject comment_reply)])
       ''A-1'' ''**hi**'' PNone) = Inr (PRef 7) \<and>
   w_trace (snd (edit_comment failing_helpers cloud_client
       (paged_world example_heap [Returns (ReplyObject comment_reply)])
       ''A-1'' ''10'' ''**hi**'' PNone)) = [JiraIssueEditComment ''A-1'' ''10'' ''**hi**'' PNone] \<and>
   fst (edit_comment failing_helpers cloud_client
       (paged_world example_heap [Returns (ReplyObject comment_reply)])
       ''A-1'' ''10'' ''**hi**'' PNone) = Inr (PRef 7)"
proof -
  let ?w = "paged_world example_heap [Returns (ReplyObject comment_reply)]"
  have ne: "(''**hi**'' :: string) \<noteq> []" by simp
  have f: "preprocessor_markdown_to_jira failing_helpers ''**hi**'' = Inl (ValueError ''bad markup'')"
    by (simp add: failing_helpers_def)
  note T = markdown_to_jira_fallback [OF ne f, of cloud_client ?w "''A-1''" PNone "''10''"]
  have t: "w_trace ?w = []" by (simp add: paged_world_def)
  have r1: "fst (add_comment failing_helpers cloud_client ?w ''A-1'' ''**hi**'' PNone) =
      Inr (PRef 7)"
    by code_simp
  have r2: "fst (edit_comment failing_helpers cloud_client ?w ''A-1'' ''10'' ''**hi**'' PNone) =
      Inr (PRef 7)"
    by code_simp
  note m = T [THEN conjunct1]
  note a2 = T [THEN conjunct2, THEN conjunct2, THEN conjunct1]
  note e2 = T [THEN conjunct2, THEN conjunct2, THEN conjunct2, THEN conjunct2]
  have a2': "w_trace (snd (add_comment failing_helpers cloud_client ?w ''A-1'' ''**hi**'' PNone)) =
      [JiraIssueAddComment ''A-1'' ''**hi**'' PNone]"
    unfolding a2 t by simp
  have e2': "w_trace (snd (edit_comment failing_helpers cloud_client ?w ''A-1'' ''10'' ''**hi**''
      PNone)) = [JiraIssueEditComment ''A-1'' ''10'' ''**hi**'' PNone]"
    unfolding e2 t by simp
  from ne m a2' r1 e2' r2 show ?thesis by (intro conjI)
qed

end
